theory Spec2Isabelle
  imports Main "HOL-Library.Word"
begin

section \<open>Common types\<close>

text \<open>
  BusTub declares \<^verbatim>\<open>frame_id_t\<close> and \<^verbatim>\<open>page_id_t\<close> as 32-bit signed integers and uses
  \<^verbatim>\<open>size_t\<close> (64 bits) for counters, timestamps and pin counts. They are words here:
  \<open>-\<close> and \<open>+\<close> wrap, \<open>sint\<close> reads the signed value, \<open><\<close> on words is unsigned.

  The classes are declared in headers that are not among the sources. The records below
  have the members that the functions read and write; the initial values of members that
  no constructor body assigns are those of the BusTub declarations
  (\<^verbatim>\<open>is_evictable_{false}\<close>, \<^verbatim>\<open>current_timestamp_{0}\<close>, \<^verbatim>\<open>curr_size_{0}\<close>,
  \<^verbatim>\<open>is_valid_{false}\<close>).
\<close>

type_synonym frame_id_t = "32 word"
type_synonym page_id_t = "32 word"
type_synonym size_t = "64 word"

text \<open>
  How a call can fail to return a value:
  \<^item> \<open>RuntimeError\<close>: a \<^verbatim>\<open>std::runtime_error\<close> is thrown;
  \<^item> \<open>Blocked\<close>: the call waits for a mutex that its holder never releases;
  \<^item> \<open>Undefined\<close>: undefined behaviour of C++ (a null or singular iterator
    dereference, an index out of range, \<^verbatim>\<open>back()\<close> of an empty list, unlocking a
    mutex that is not held).
\<close>

datatype error = RuntimeError | Blocked | Undefined

definition bind_e :: "error + 'a \<Rightarrow> ('a \<Rightarrow> error + 'b) \<Rightarrow> error + 'b" where
  "bind_e m f = (case m of Inl e \<Rightarrow> Inl e | Inr x \<Rightarrow> f x)"

section \<open>LRU-K replacer (lru_k_replacer.cpp)\<close>

text \<open>
  \<^verbatim>\<open>LRUKNode\<close>: the access history (newest timestamp at the front, as
  \<^verbatim>\<open>push_front\<close> builds it) and the evictable flag. \<^verbatim>\<open>node_store_[id]\<close> on a missing
  key creates \<open>default_node\<close>.
\<close>

record LRUKNode =
  history :: "size_t list"
  is_evictable :: bool

definition default_node :: LRUKNode where
  "default_node = \<lparr>history = [], is_evictable = False\<rparr>"

text \<open>
  The replacer. The two \<^verbatim>\<open>std::list\<close>s are lists with the front at the head. The two
  locator maps (\<^verbatim>\<open>new_frames_locator_\<close>, \<^verbatim>\<open>cache_frames_locator_\<close>) store, for a frame id,
  the iterator of its node in the list; the code writes the locator exactly when it
  inserts the id and erases it exactly when it erases the node, so the locator of \<open>f\<close> is
  represented by the position of \<open>f\<close> in the list, and a locator lookup of an id that is not
  in the list (a default-constructed iterator) is \<open>Undefined\<close>. An id enters a list only
  when it is in neither (a new node, or the move from the New list to the Cache list), so
  it occurs at most once. \<open>k_dist\<close> is the member \<^verbatim>\<open>k_\<close>.
\<close>

record LRUKReplacer =
  node_store :: "frame_id_t \<rightharpoonup> LRUKNode"
  current_timestamp :: size_t
  curr_size :: size_t
  replacer_size :: size_t
  k_dist :: size_t
  new_frames :: "frame_id_t list"
  cache_frames :: "frame_id_t list"

definition LRUKReplacer_init :: "size_t \<Rightarrow> size_t \<Rightarrow> LRUKReplacer" where
  "LRUKReplacer_init num_frames k =
     \<lparr>node_store = Map.empty, current_timestamp = 0, curr_size = 0,
      replacer_size = num_frames, k_dist = k, new_frames = [], cache_frames = []\<rparr>"

text \<open>\<^verbatim>\<open>list.erase(locator[f])\<close>.\<close>

definition erase_located :: "frame_id_t \<Rightarrow> frame_id_t list \<Rightarrow> error + frame_id_t list" where
  "erase_located f xs = (if f \<in> set xs then Inr (remove1 f xs) else Inl Undefined)"

text \<open>\<^verbatim>\<open>list.insert(locator[i], f)\<close>: \<open>f\<close> goes right before \<open>i\<close>.\<close>

definition insert_before :: "frame_id_t \<Rightarrow> frame_id_t \<Rightarrow> frame_id_t list \<Rightarrow> frame_id_t list" where
  "insert_before i f xs = takeWhile (\<lambda>x. x \<noteq> i) xs @ f # dropWhile (\<lambda>x. x \<noteq> i) xs"

text \<open>\<^verbatim>\<open>node_store_[id].history_.back()\<close>.\<close>

definition history_back :: "(frame_id_t \<rightharpoonup> LRUKNode) \<Rightarrow> frame_id_t \<Rightarrow> error + size_t" where
  "history_back ns i =
     (case ns i of
        None \<Rightarrow> Inl Undefined
      | Some n \<Rightarrow> if history n = [] then Inl Undefined else Inr (last (history n)))"

subsection \<open>Evict\<close>

text \<open>
  The loop body of \<^verbatim>\<open>Evict\<close> over a reverse iteration: the argument is the list from the
  back. A frame whose node is not evictable is skipped; the lookup \<^verbatim>\<open>node_store_[f]\<close>
  creates a default (non-evictable) node when there is none.
\<close>

fun scan_evictable ::
  "frame_id_t list \<Rightarrow> (frame_id_t \<rightharpoonup> LRUKNode) \<Rightarrow> frame_id_t option \<times> (frame_id_t \<rightharpoonup> LRUKNode)" where
  "scan_evictable [] ns = (None, ns)"
| "scan_evictable (f # fs) ns =
     (case ns f of
        None \<Rightarrow> scan_evictable fs (ns(f \<mapsto> default_node))
      | Some n \<Rightarrow> if is_evictable n then (Some f, ns) else scan_evictable fs ns)"

definition Evict :: "LRUKReplacer \<Rightarrow> frame_id_t option \<times> LRUKReplacer" where
  "Evict r =
     (case scan_evictable (rev (new_frames r)) (node_store r) of
        (Some f, ns) \<Rightarrow>
          (Some f, r\<lparr>node_store := ns(f := None),
                     new_frames := remove1 f (new_frames r),
                     curr_size := curr_size r - 1\<rparr>)
      | (None, ns) \<Rightarrow>
          (case scan_evictable (rev (cache_frames r)) ns of
             (Some f, ns') \<Rightarrow>
               (Some f, r\<lparr>node_store := ns'(f := None),
                          cache_frames := remove1 f (cache_frames r),
                          curr_size := curr_size r - 1\<rparr>)
           | (None, ns') \<Rightarrow> (None, r\<lparr>node_store := ns'\<rparr>)))"

subsection \<open>RecordAccess\<close>

text \<open>\<^verbatim>\<open>static_cast<int>(replacer_size_)\<close>: the low 32 bits, read as signed.\<close>

definition static_cast_int :: "size_t \<Rightarrow> 32 word" where
  "static_cast_int n = ucast n"

text \<open>
  Case (3), the search loop \<^verbatim>\<open>for (frame_id_t id : cache_frames_)\<close>: the first id whose
  K-th timestamp is smaller than \<open>kts\<close>, or none when the loop ends without a
  \<^verbatim>\<open>break\<close>.
\<close>

fun first_older ::
  "size_t \<Rightarrow> (frame_id_t \<rightharpoonup> LRUKNode) \<Rightarrow> frame_id_t list \<Rightarrow> error + frame_id_t option" where
  "first_older kts ns [] = Inr None"
| "first_older kts ns (i # is) =
     (case history_back ns i of
        Inl e \<Rightarrow> Inl e
      | Inr b \<Rightarrow> if b < kts then Inr (Some i) else first_older kts ns is)"

text \<open>
  Case (3): the frame leaves the New list and enters the Cache list before the id the
  loop found; \<^verbatim>\<open>it\<close> is initialised with \<^verbatim>\<open>cache_frames_.begin()\<close> and keeps that
  value when the loop finds nothing.
\<close>

definition promote :: "LRUKReplacer \<Rightarrow> frame_id_t \<Rightarrow> LRUKNode \<Rightarrow> error + LRUKReplacer" where
  "promote r fid n =
     (let h = current_timestamp r # history n;
          ns = (node_store r)(fid \<mapsto> n\<lparr>history := h\<rparr>)
      in bind_e (erase_located fid (new_frames r)) (\<lambda>new'.
         bind_e (first_older (last h) ns (cache_frames r)) (\<lambda>found.
           Inr (r\<lparr>node_store := ns, new_frames := new',
                  cache_frames := (case found of
                                     None \<Rightarrow> fid # cache_frames r
                                   | Some i \<Rightarrow> insert_before i fid (cache_frames r))\<rparr>))))"

text \<open>
  Case (4), the loop \<^verbatim>\<open>for (auto it = erase_next; it != cache_frames_.begin();)\<close>: the
  argument lists the ids in front of \<^verbatim>\<open>erase_next\<close>, nearest first; the result is the
  number of positions \<^verbatim>\<open>insert_next\<close> moved towards the front.
\<close>

fun steps_to_front ::
  "size_t \<Rightarrow> (frame_id_t \<rightharpoonup> LRUKNode) \<Rightarrow> frame_id_t list \<Rightarrow> error + nat" where
  "steps_to_front kts ns [] = Inr 0"
| "steps_to_front kts ns (i # is) =
     (case history_back ns i of
        Inl e \<Rightarrow> Inl e
      | Inr b \<Rightarrow> if kts < b then Inr 0
                 else bind_e (steps_to_front kts ns is) (\<lambda>m. Inr (Suc m)))"

definition reposition :: "LRUKReplacer \<Rightarrow> frame_id_t \<Rightarrow> LRUKNode \<Rightarrow> error + LRUKReplacer" where
  "reposition r fid n =
     (let h = butlast (current_timestamp r # history n);
          ns = (node_store r)(fid \<mapsto> n\<lparr>history := h\<rparr>)
      in if h = [] then Inl Undefined
         else
           bind_e (erase_located fid (cache_frames r)) (\<lambda>rest.
             let p = length (takeWhile (\<lambda>x. x \<noteq> fid) (cache_frames r))
             in bind_e (steps_to_front (last h) ns (rev (take p rest))) (\<lambda>m.
                  Inr (r\<lparr>node_store := ns,
                         cache_frames := take (p - m) rest @ fid # drop (p - m) rest\<rparr>))))"

definition RecordAccess :: "LRUKReplacer \<Rightarrow> frame_id_t \<Rightarrow> error + LRUKReplacer" where
  "RecordAccess r fid =
     (if sint (static_cast_int (replacer_size r)) < sint fid then Inl RuntimeError
      else
        bind_e
          (case node_store r fid of
             None \<Rightarrow>
               Inr (r\<lparr>node_store := (node_store r)(fid \<mapsto>
                          default_node\<lparr>history := [current_timestamp r]\<rparr>),
                      new_frames := fid # new_frames r\<rparr>)
           | Some n \<Rightarrow>
               if of_nat (length (history n)) < k_dist r - 1
               then Inr (r\<lparr>node_store := (node_store r)(fid \<mapsto>
                               n\<lparr>history := current_timestamp r # history n\<rparr>)\<rparr>)
               else if of_nat (length (history n)) = k_dist r - 1 then promote r fid n
               else if of_nat (length (history n)) = k_dist r then reposition r fid n
               else Inr r)
          (\<lambda>r'. Inr (r'\<lparr>current_timestamp := current_timestamp r' + 1\<rparr>)))"

subsection \<open>SetEvictable, Remove, Size\<close>

definition SetEvictable :: "LRUKReplacer \<Rightarrow> frame_id_t \<Rightarrow> bool \<Rightarrow> LRUKReplacer" where
  "SetEvictable r fid set_evictable =
     (case node_store r fid of
        None \<Rightarrow> r
      | Some n \<Rightarrow>
          r\<lparr>curr_size :=
              (if is_evictable n \<and> \<not> set_evictable then curr_size r - 1
               else if \<not> is_evictable n \<and> set_evictable then curr_size r + 1
               else curr_size r),
            node_store := (node_store r)(fid \<mapsto> n\<lparr>is_evictable := set_evictable\<rparr>)\<rparr>)"

definition Remove :: "LRUKReplacer \<Rightarrow> frame_id_t \<Rightarrow> error + LRUKReplacer" where
  "Remove r fid =
     (case node_store r fid of
        None \<Rightarrow> Inr r
      | Some n \<Rightarrow>
          if \<not> is_evictable n then Inl RuntimeError
          else
            bind_e
              (if of_nat (length (history n)) < k_dist r
               then bind_e (erase_located fid (new_frames r)) (\<lambda>l. Inr (r\<lparr>new_frames := l\<rparr>))
               else bind_e (erase_located fid (cache_frames r)) (\<lambda>l. Inr (r\<lparr>cache_frames := l\<rparr>)))
              (\<lambda>r'. Inr (r'\<lparr>curr_size := curr_size r' - 1,
                            node_store := (node_store r')(fid := None)\<rparr>)))"

definition Size :: "LRUKReplacer \<Rightarrow> size_t" where
  "Size r = curr_size r"

subsection \<open>Running a sequence of calls\<close>

fun record_accesses :: "LRUKReplacer \<Rightarrow> frame_id_t list \<Rightarrow> error + LRUKReplacer" where
  "record_accesses r [] = Inr r"
| "record_accesses r (f # fs) = bind_e (RecordAccess r f) (\<lambda>r'. record_accesses r' fs)"

fun set_all_evictable :: "LRUKReplacer \<Rightarrow> frame_id_t list \<Rightarrow> LRUKReplacer" where
  "set_all_evictable r [] = r"
| "set_all_evictable r (f # fs) = set_all_evictable (SetEvictable r f True) fs"

text \<open>The K-th-most-recent timestamps of the Cache list, front to back.\<close>

definition cache_keys :: "LRUKReplacer \<Rightarrow> (error + size_t) list" where
  "cache_keys r = map (history_back (node_store r)) (cache_frames r)"

text \<open>
  The order that the Cache list is meant to have: \<open>kth_timestamp\<close> is the oldest
  timestamp a node keeps, \<open>has_history\<close> says that the node exists and has one, and
  \<open>newest_first\<close> that the K-th timestamps do not grow from the front to the back.
\<close>

definition kth_timestamp :: "(frame_id_t \<rightharpoonup> LRUKNode) \<Rightarrow> frame_id_t \<Rightarrow> size_t" where
  "kth_timestamp ns i = (case ns i of None \<Rightarrow> 0 | Some n \<Rightarrow> last (history n))"

definition has_history :: "(frame_id_t \<rightharpoonup> LRUKNode) \<Rightarrow> frame_id_t \<Rightarrow> bool" where
  "has_history ns i = (case ns i of None \<Rightarrow> False | Some n \<Rightarrow> history n \<noteq> [])"

definition newest_first :: "(frame_id_t \<rightharpoonup> LRUKNode) \<Rightarrow> frame_id_t list \<Rightarrow> bool" where
  "newest_first ns xs = sorted_wrt (\<lambda>a b. kth_timestamp ns b \<le> kth_timestamp ns a) xs"

section \<open>Frames, the disk scheduler and the pool (buffer_pool_manager.cpp)\<close>

text \<open>
  \<^verbatim>\<open>std::shared_mutex\<close>, the frame's \<^verbatim>\<open>rwlatch_\<close>: one writer or any number of readers.
  \<^verbatim>\<open>lock\<close> and \<^verbatim>\<open>lock_shared\<close> wait while the mutex is not available; with nobody
  else running that wait never ends (\<open>Blocked\<close>). Unlocking a mutex that is not held in
  that mode is \<open>Undefined\<close>.
\<close>

record shared_mutex =
  writer :: bool
  readers :: nat

definition rw_lock :: "shared_mutex \<Rightarrow> error + shared_mutex" where
  "rw_lock l = (if writer l \<or> 0 < readers l then Inl Blocked else Inr (l\<lparr>writer := True\<rparr>))"

definition rw_unlock :: "shared_mutex \<Rightarrow> error + shared_mutex" where
  "rw_unlock l = (if writer l then Inr (l\<lparr>writer := False\<rparr>) else Inl Undefined)"

definition rw_lock_shared :: "shared_mutex \<Rightarrow> error + shared_mutex" where
  "rw_lock_shared l = (if writer l then Inl Blocked else Inr (l\<lparr>readers := Suc (readers l)\<rparr>))"

definition rw_unlock_shared :: "shared_mutex \<Rightarrow> error + shared_mutex" where
  "rw_unlock_shared l =
     (if 0 < readers l then Inr (l\<lparr>readers := readers l - 1\<rparr>) else Inl Undefined)"

type_synonym page_data = "8 word list"

text \<open>
  Modelled from the spec: the page size (the constant is declared in a header that is not
  among the sources); the spec gives 4 KiB.
\<close>

definition BUSTUB_PAGE_SIZE :: nat where
  "BUSTUB_PAGE_SIZE = 4096"

text \<open>
  \<^verbatim>\<open>FrameHeader\<close>, with the fields the sources read and write. \<^verbatim>\<open>pin_count_\<close> is the
  atomic \<^verbatim>\<open>size_t\<close> whose value \<^verbatim>\<open>GetPinCount\<close> returns.
\<close>

record FrameHeader =
  frame_id :: frame_id_t
  rwlatch :: shared_mutex
  pin_count :: size_t
  is_dirty :: bool
  data :: page_data
  page_id :: page_id_t

definition Reset :: "FrameHeader \<Rightarrow> FrameHeader" where
  "Reset f = f\<lparr>data := replicate (length (data f)) 0, pin_count := 0, is_dirty := False\<rparr>"

text \<open>
  The constructor fills the buffer with zeros and calls \<^verbatim>\<open>Reset\<close>; it does not assign
  \<^verbatim>\<open>page_id_\<close>, whose first value \<open>pid0\<close> comes from the class declaration.
\<close>

definition FrameHeader_init :: "page_id_t \<Rightarrow> frame_id_t \<Rightarrow> FrameHeader" where
  "FrameHeader_init pid0 fid =
     Reset \<lparr>frame_id = fid, rwlatch = \<lparr>writer = False, readers = 0\<rparr>, pin_count = 0,
            is_dirty = False, data = replicate BUSTUB_PAGE_SIZE 0, page_id = pid0\<rparr>"

text \<open>
  Modelled from the spec: the disk scheduler (its source is not among the sources). A
  request that is scheduled and whose future is awaited is served before the
  caller continues: a write copies the buffer to the page, a read returns the page's
  bytes; \<^verbatim>\<open>DeallocatePage\<close> is a hint and \<^verbatim>\<open>IncreaseDiskSpace\<close> grows the file. Every
  call is appended to \<open>calls\<close>.
\<close>

datatype DiskCall =
  WriteRequest page_id_t page_data
| ReadRequest page_id_t
| Deallocate page_id_t
| IncreaseSpace page_id_t

record DiskScheduler =
  disk_pages :: "page_id_t \<Rightarrow> page_data"
  calls :: "DiskCall list"

definition DiskScheduler_init :: DiskScheduler where
  "DiskScheduler_init = \<lparr>disk_pages = (\<lambda>_. replicate BUSTUB_PAGE_SIZE 0), calls = []\<rparr>"

definition schedule_write :: "page_id_t \<Rightarrow> page_data \<Rightarrow> DiskScheduler \<Rightarrow> DiskScheduler" where
  "schedule_write pid bytes d =
     d\<lparr>disk_pages := (disk_pages d)(pid := bytes), calls := calls d @ [WriteRequest pid bytes]\<rparr>"

definition schedule_read :: "page_id_t \<Rightarrow> DiskScheduler \<Rightarrow> page_data \<times> DiskScheduler" where
  "schedule_read pid d = (disk_pages d pid, d\<lparr>calls := calls d @ [ReadRequest pid]\<rparr>)"

definition DeallocatePage :: "page_id_t \<Rightarrow> DiskScheduler \<Rightarrow> DiskScheduler" where
  "DeallocatePage pid d = d\<lparr>calls := calls d @ [Deallocate pid]\<rparr>"

definition IncreaseDiskSpace :: "page_id_t \<Rightarrow> DiskScheduler \<Rightarrow> DiskScheduler" where
  "IncreaseDiskSpace pid d = d\<lparr>calls := calls d @ [IncreaseSpace pid]\<rparr>"

text \<open>
  The pool. \<open>bpm_latch\<close> is the \<^verbatim>\<open>std::mutex\<close> behind \<^verbatim>\<open>bpm_latch_\<close>: \<open>True\<close> while it
  is locked. The frames are shared objects that the pool's vector and the guards point
  to; a pointer to a frame is its index in \<open>frames\<close>.
\<close>

record BufferPoolManager =
  num_frames :: size_t
  next_page_id :: page_id_t
  bpm_latch :: bool
  frames :: "FrameHeader list"
  page_table :: "page_id_t \<rightharpoonup> frame_id_t"
  free_frames :: "frame_id_t list"
  replacer :: LRUKReplacer
  disk_scheduler :: DiskScheduler

definition BufferPoolManager_init :: "size_t \<Rightarrow> size_t \<Rightarrow> page_id_t \<Rightarrow> BufferPoolManager" where
  "BufferPoolManager_init n k pid0 =
     \<lparr>num_frames = n, next_page_id = 0, bpm_latch = False,
      frames = map (\<lambda>i. FrameHeader_init pid0 (of_nat i)) [0..<unat n],
      page_table = Map.empty,
      free_frames = map of_nat [0..<unat n],
      replacer = LRUKReplacer_init n k,
      disk_scheduler = DiskScheduler_init\<rparr>"

text \<open>
  \<^verbatim>\<open>bpm_latch_->lock()\<close> and the constructor of \<^verbatim>\<open>std::scoped_lock\<close>: the call returns
  once the mutex is free. Nothing releases a mutex that stays locked when a function
  returns, so a later \<^verbatim>\<open>lock()\<close> waits for ever (and is formally undefined when the
  caller is the thread that holds it).
\<close>

definition lock_latch :: "BufferPoolManager \<Rightarrow> error + BufferPoolManager" where
  "lock_latch s = (if bpm_latch s then Inl Blocked else Inr (s\<lparr>bpm_latch := True\<rparr>))"

definition unlock_latch :: "BufferPoolManager \<Rightarrow> BufferPoolManager" where
  "unlock_latch s = s\<lparr>bpm_latch := False\<rparr>"

text \<open>\<^verbatim>\<open>frames_[frame_id]\<close>: the index is the frame id, and must be in the vector.\<close>

definition frame_index :: "BufferPoolManager \<Rightarrow> frame_id_t \<Rightarrow> error + nat" where
  "frame_index s fid =
     (if 0 \<le> sint fid \<and> nat (sint fid) < length (frames s) then Inr (nat (sint fid))
      else Inl Undefined)"

definition NewPage :: "BufferPoolManager \<Rightarrow> error + (page_id_t \<times> BufferPoolManager)" where
  "NewPage s =
     bind_e (lock_latch s) (\<lambda>s1.
       let n = next_page_id s1 + 1
       in Inr (n - 1, unlock_latch (s1\<lparr>next_page_id := n,
                 disk_scheduler := IncreaseDiskSpace n (disk_scheduler s1)\<rparr>)))"

text \<open>\<^verbatim>\<open>FlushPage\<close> takes no latch.\<close>

definition FlushPage :: "BufferPoolManager \<Rightarrow> page_id_t \<Rightarrow> error + (bool \<times> BufferPoolManager)" where
  "FlushPage s pid =
     (case page_table s pid of
        None \<Rightarrow> Inr (False, s)
      | Some fid \<Rightarrow>
          bind_e (frame_index s fid) (\<lambda>i.
            if is_dirty (frames s ! i)
            then Inr (True, s\<lparr>disk_scheduler :=
                        schedule_write pid (data (frames s ! i)) (disk_scheduler s)\<rparr>)
            else Inr (True, s)))"

fun flush_frames :: "FrameHeader list \<Rightarrow> DiskScheduler \<Rightarrow> DiskScheduler" where
  "flush_frames [] d = d"
| "flush_frames (f # fs) d =
     flush_frames fs (if is_dirty f then schedule_write (page_id f) (data f) d else d)"

definition FlushAllPages :: "BufferPoolManager \<Rightarrow> error + BufferPoolManager" where
  "FlushAllPages s =
     bind_e (lock_latch s) (\<lambda>s1.
       Inr (unlock_latch (s1\<lparr>disk_scheduler := flush_frames (frames s1) (disk_scheduler s1)\<rparr>)))"

definition GetPinCount :: "BufferPoolManager \<Rightarrow> page_id_t \<Rightarrow> error + (size_t option \<times> BufferPoolManager)" where
  "GetPinCount s pid =
     bind_e (lock_latch s) (\<lambda>s1.
       case page_table s1 pid of
         None \<Rightarrow> Inr (None, unlock_latch s1)
       | Some fid \<Rightarrow>
           bind_e (frame_index s1 fid) (\<lambda>i. Inr (Some (pin_count (frames s1 ! i)), unlock_latch s1)))"

definition DeletePage :: "BufferPoolManager \<Rightarrow> page_id_t \<Rightarrow> error + (bool \<times> BufferPoolManager)" where
  "DeletePage s pid =
     bind_e (lock_latch s) (\<lambda>s1.
       case page_table s1 pid of
         None \<Rightarrow>
           Inr (True, unlock_latch (s1\<lparr>disk_scheduler := DeallocatePage pid (disk_scheduler s1)\<rparr>))
       | Some fid \<Rightarrow>
           bind_e (frame_index s1 fid) (\<lambda>i.
             if 0 < pin_count (frames s1 ! i) then Inr (False, unlock_latch s1)
             else
               bind_e (Remove (replacer s1) fid) (\<lambda>r.
                 Inr (True, unlock_latch (s1\<lparr>
                        frames := (frames s1)[i := Reset (frames s1 ! i)],
                        page_table := (page_table s1)(pid := None),
                        free_frames := free_frames s1 @ [fid],
                        replacer := r,
                        disk_scheduler := DeallocatePage pid (disk_scheduler s1)\<rparr>)))))"

section \<open>Page guards (page_guard.cpp)\<close>

text \<open>
  A guard object: the page id, the shared pointers to its frame (the frame's index, or
  \<open>None\<close> for a null pointer), to the replacer and to the pool latch (\<open>True\<close> when not
  null), and the validity flag. \<^verbatim>\<open>ReadPageGuard\<close> and \<^verbatim>\<open>WritePageGuard\<close> have the same
  fields.
\<close>

record PageGuard =
  g_page_id :: page_id_t
  g_frame :: "nat option"
  g_replacer :: bool
  g_bpm_latch :: bool
  g_is_valid :: bool

type_synonym ReadPageGuard = PageGuard
type_synonym WritePageGuard = PageGuard

text \<open>A guard object before any constructor body has run (\<^verbatim>\<open>is_valid_{false}\<close>).\<close>

definition default_guard :: PageGuard where
  "default_guard =
     \<lparr>g_page_id = 0, g_frame = None, g_replacer = False, g_bpm_latch = False, g_is_valid = False\<rparr>"

subsection \<open>Constructors\<close>

definition ReadPageGuard_ctor ::
  "page_id_t \<Rightarrow> nat \<Rightarrow> BufferPoolManager \<Rightarrow> error + (ReadPageGuard \<times> BufferPoolManager)" where
  "ReadPageGuard_ctor pid i s =
     bind_e (rw_lock_shared (rwlatch (frames s ! i))) (\<lambda>l.
       Inr (\<lparr>g_page_id = pid, g_frame = Some i, g_replacer = True, g_bpm_latch = True,
             g_is_valid = True\<rparr>,
            s\<lparr>frames := (frames s)[i := (frames s ! i)\<lparr>rwlatch := l\<rparr>]\<rparr>))"

definition WritePageGuard_ctor ::
  "page_id_t \<Rightarrow> nat \<Rightarrow> BufferPoolManager \<Rightarrow> error + (WritePageGuard \<times> BufferPoolManager)" where
  "WritePageGuard_ctor pid i s =
     bind_e (rw_lock (rwlatch (frames s ! i))) (\<lambda>l.
       Inr (\<lparr>g_page_id = pid, g_frame = Some i, g_replacer = True, g_bpm_latch = True,
             g_is_valid = True\<rparr>,
            s\<lparr>frames := (frames s)[i := (frames s ! i)\<lparr>is_dirty := True, rwlatch := l\<rparr>]\<rparr>))"

subsection \<open>IsDirty\<close>

text \<open>\<^verbatim>\<open>BUSTUB_ENSURE(is_valid_, ...)\<close> aborts on an invalid guard.\<close>

definition IsDirty :: "PageGuard \<Rightarrow> BufferPoolManager \<Rightarrow> error + bool" where
  "IsDirty g s =
     (if \<not> g_is_valid g then Inl RuntimeError
      else case g_frame g of
             None \<Rightarrow> Inl Undefined
           | Some i \<Rightarrow> if i < length (frames s) then Inr (is_dirty (frames s ! i)) else Inl Undefined)"

subsection \<open>Drop\<close>

text \<open>
  The part of \<^verbatim>\<open>Drop\<close> that both guards share: \<^verbatim>\<open>frame_->pin_count_--\<close>, then
  \<^verbatim>\<open>SetEvictable(frame_->frame_id_, true)\<close> when the count is zero. The result is the
  frame with its new pin count and the replacer.
\<close>

definition unpin :: "PageGuard \<Rightarrow> nat \<Rightarrow> BufferPoolManager \<Rightarrow> error + (FrameHeader \<times> LRUKReplacer)" where
  "unpin g i s =
     (if i < length (frames s)
      then
        let f = (frames s ! i)\<lparr>pin_count := pin_count (frames s ! i) - 1\<rparr>
        in if pin_count f = 0
           then (if g_replacer g then Inr (f, SetEvictable (replacer s) (frame_id f) True)
                 else Inl Undefined)
           else Inr (f, replacer s)
      else Inl Undefined)"

text \<open>The last three assignments of \<^verbatim>\<open>Drop\<close>.\<close>

definition released :: "PageGuard \<Rightarrow> PageGuard" where
  "released g = g\<lparr>g_is_valid := False, g_replacer := False, g_frame := None\<rparr>"

definition ReadPageGuard_Drop ::
  "ReadPageGuard \<Rightarrow> BufferPoolManager \<Rightarrow> error + (ReadPageGuard \<times> BufferPoolManager)" where
  "ReadPageGuard_Drop g s =
     (if \<not> g_is_valid g then Inr (g, s)
      else case g_frame g of
             None \<Rightarrow> Inl Undefined
           | Some i \<Rightarrow>
               bind_e (unpin g i s) (\<lambda>(f, r).
               bind_e (rw_unlock_shared (rwlatch f)) (\<lambda>l.
                 Inr (released g,
                      s\<lparr>frames := (frames s)[i := f\<lparr>rwlatch := l\<rparr>], replacer := r\<rparr>))))"

definition WritePageGuard_Drop ::
  "WritePageGuard \<Rightarrow> BufferPoolManager \<Rightarrow> error + (WritePageGuard \<times> BufferPoolManager)" where
  "WritePageGuard_Drop g s =
     (if \<not> g_is_valid g then Inr (g, s)
      else case g_frame g of
             None \<Rightarrow> Inl Undefined
           | Some i \<Rightarrow>
               bind_e (unpin g i s) (\<lambda>(f, r).
               bind_e (rw_unlock (rwlatch f)) (\<lambda>l.
                 Inr (released g,
                      s\<lparr>frames := (frames s)[i := f\<lparr>rwlatch := l\<rparr>], replacer := r\<rparr>))))"

subsection \<open>Move construction and move assignment\<close>

text \<open>
  The guard objects of the client live in a store \<open>gs\<close> from addresses to guards, so that
  \<^verbatim>\<open>this == &that\<close> is the equality of two addresses. The lines after \<^verbatim>\<open>Drop()\<close>:
  the fields of \<^verbatim>\<open>that\<close> go to \<^verbatim>\<open>this\<close> (\<^verbatim>\<open>std::move\<close> leaves each shared pointer of
  \<^verbatim>\<open>that\<close> null), \<^verbatim>\<open>that.is_valid_ = false\<close>, and
  \<^verbatim>\<open>replacer_->SetEvictable(frame_->frame_id_, false)\<close> through the pointers just
  received.
\<close>

definition moved_from :: "PageGuard \<Rightarrow> PageGuard" where
  "moved_from g = g\<lparr>g_frame := None, g_replacer := False, g_bpm_latch := False,
                     g_is_valid := False\<rparr>"

definition take_over ::
  "(nat \<Rightarrow> PageGuard) \<Rightarrow> nat \<Rightarrow> nat \<Rightarrow> BufferPoolManager \<Rightarrow>
   error + ((nat \<Rightarrow> PageGuard) \<times> BufferPoolManager)" where
  "take_over gs this that s =
     (let src = gs that;
          dst = (gs this)\<lparr>g_page_id := g_page_id src, g_frame := g_frame src,
                          g_replacer := g_replacer src, g_bpm_latch := g_bpm_latch src,
                          g_is_valid := g_is_valid src\<rparr>;
          src' = moved_from src
      in if \<not> g_replacer dst then Inl Undefined
         else case g_frame dst of
                None \<Rightarrow> Inl Undefined
              | Some i \<Rightarrow>
                  if i < length (frames s)
                  then Inr (gs(this := dst, that := src'),
                            s\<lparr>replacer := SetEvictable (replacer s) (frame_id (frames s ! i)) False\<rparr>)
                  else Inl Undefined)"

definition ReadPageGuard_move_assign ::
  "(nat \<Rightarrow> PageGuard) \<Rightarrow> nat \<Rightarrow> nat \<Rightarrow> BufferPoolManager \<Rightarrow>
   error + ((nat \<Rightarrow> PageGuard) \<times> BufferPoolManager)" where
  "ReadPageGuard_move_assign gs this that s =
     (if this = that then Inr (gs, s)
      else bind_e (ReadPageGuard_Drop (gs this) s) (\<lambda>(g, s1).
             take_over (gs(this := g)) this that s1))"

definition WritePageGuard_move_assign ::
  "(nat \<Rightarrow> PageGuard) \<Rightarrow> nat \<Rightarrow> nat \<Rightarrow> BufferPoolManager \<Rightarrow>
   error + ((nat \<Rightarrow> PageGuard) \<times> BufferPoolManager)" where
  "WritePageGuard_move_assign gs this that s =
     (if this = that then Inr (gs, s)
      else bind_e (WritePageGuard_Drop (gs this) s) (\<lambda>(g, s1).
             take_over (gs(this := g)) this that s1))"

text \<open>
  The move constructors have the body of the assignment operators and run on an object
  whose members have just been default-initialised.
\<close>

definition ReadPageGuard_move_ctor ::
  "(nat \<Rightarrow> PageGuard) \<Rightarrow> nat \<Rightarrow> nat \<Rightarrow> BufferPoolManager \<Rightarrow>
   error + ((nat \<Rightarrow> PageGuard) \<times> BufferPoolManager)" where
  "ReadPageGuard_move_ctor gs this that s =
     ReadPageGuard_move_assign (gs(this := default_guard)) this that s"

definition WritePageGuard_move_ctor ::
  "(nat \<Rightarrow> PageGuard) \<Rightarrow> nat \<Rightarrow> nat \<Rightarrow> BufferPoolManager \<Rightarrow>
   error + ((nat \<Rightarrow> PageGuard) \<times> BufferPoolManager)" where
  "WritePageGuard_move_ctor gs this that s =
     WritePageGuard_move_assign (gs(this := default_guard)) this that s"

section \<open>Fetching a page (CheckedWritePage, CheckedReadPage)\<close>

text \<open>
  \<^verbatim>\<open>CheckedWritePage\<close> and \<^verbatim>\<open>CheckedReadPage\<close> have the same text up to the guard they
  construct. \<open>pin_frame\<close> is the block
  \<^verbatim>\<open>pin_count_++; page_id_ = page_id; RecordAccess(frame_id); SetEvictable(frame_id, false)\<close>
  that both branches end with.
\<close>

definition pin_frame ::
  "BufferPoolManager \<Rightarrow> frame_id_t \<Rightarrow> page_id_t \<Rightarrow> error + (nat \<times> BufferPoolManager)" where
  "pin_frame s fid pid =
     bind_e (frame_index s fid) (\<lambda>i.
     bind_e (RecordAccess (replacer s) fid) (\<lambda>r.
       Inr (i, s\<lparr>frames := (frames s)[i := (frames s ! i)\<lparr>
                     pin_count := pin_count (frames s ! i) + 1, page_id := pid\<rparr>],
                 replacer := SetEvictable r fid False\<rparr>)))"

text \<open>The read request for the page, scheduled and awaited.\<close>

definition load_page ::
  "BufferPoolManager \<Rightarrow> frame_id_t \<Rightarrow> page_id_t \<Rightarrow> error + BufferPoolManager" where
  "load_page s fid pid =
     bind_e (frame_index s fid) (\<lambda>i.
       case schedule_read pid (disk_scheduler s) of
         (bytes, d) \<Rightarrow>
           Inr (s\<lparr>frames := (frames s)[i := (frames s ! i)\<lparr>data := bytes\<rparr>],
                 disk_scheduler := d\<rparr>))"

text \<open>
  The choice of the frame for a page that is not resident: \<open>None\<close> is the exit with
  \<^verbatim>\<open>bpm_latch_->unlock(); return std::nullopt;\<close>, the only place where the two functions
  unlock the latch.
\<close>

definition choose_frame ::
  "BufferPoolManager \<Rightarrow> page_id_t \<Rightarrow> error + (frame_id_t option \<times> BufferPoolManager)" where
  "choose_frame s pid =
     (if free_frames s = []
      then
        (case Evict (replacer s) of
           (None, r) \<Rightarrow> Inr (None, unlock_latch (s\<lparr>replacer := r\<rparr>))
         | (Some fid, r) \<Rightarrow>
             bind_e (frame_index s fid) (\<lambda>i.
             bind_e (FlushPage (s\<lparr>replacer := r\<rparr>) (page_id (frames s ! i))) (\<lambda>(flushed, s1).
               Inr (Some fid,
                    s1\<lparr>page_table :=
                         ((page_table s1)(page_id (frames s ! i) := None))(pid \<mapsto> fid)\<rparr>))))
      else
        Inr (Some (hd (free_frames s)),
             s\<lparr>free_frames := tl (free_frames s),
               page_table := (page_table s)(pid \<mapsto> hd (free_frames s))\<rparr>))"

text \<open>
  Everything before the \<^verbatim>\<open>return\<close> statements: the result is the index of the pinned
  frame, or \<open>None\<close> for \<^verbatim>\<open>std::nullopt\<close>. The \<^verbatim>\<open>return\<close> of a guard builds the optional
  from the constructed guard by a move; that move copies the fields, changes no frame and
  repeats \<open>SetEvictable(frame_id, false)\<close>, which \<open>pin_frame\<close> has just applied (lemma
  \<open>SetEvictable_twice\<close>), so the guard and the state returned are those of the constructor.
\<close>

definition fetch_frame ::
  "BufferPoolManager \<Rightarrow> page_id_t \<Rightarrow> error + (nat option \<times> BufferPoolManager)" where
  "fetch_frame s pid =
     bind_e (lock_latch s) (\<lambda>s1.
       case page_table s1 pid of
         None \<Rightarrow>
           bind_e (choose_frame s1 pid) (\<lambda>(chosen, s2).
             case chosen of
               None \<Rightarrow> Inr (None, s2)
             | Some fid \<Rightarrow>
                 bind_e (load_page s2 fid pid) (\<lambda>s3.
                 bind_e (pin_frame s3 fid pid) (\<lambda>(i, s4). Inr (Some i, s4))))
       | Some fid \<Rightarrow>
           bind_e (pin_frame s1 fid pid) (\<lambda>(i, s2). Inr (Some i, s2)))"

definition CheckedWritePage ::
  "BufferPoolManager \<Rightarrow> page_id_t \<Rightarrow> error + (WritePageGuard option \<times> BufferPoolManager)" where
  "CheckedWritePage s pid =
     bind_e (fetch_frame s pid) (\<lambda>(fetched, s1).
       case fetched of
         None \<Rightarrow> Inr (None, s1)
       | Some i \<Rightarrow> bind_e (WritePageGuard_ctor pid i s1) (\<lambda>(g, s2). Inr (Some g, s2)))"

definition CheckedReadPage ::
  "BufferPoolManager \<Rightarrow> page_id_t \<Rightarrow> error + (ReadPageGuard option \<times> BufferPoolManager)" where
  "CheckedReadPage s pid =
     bind_e (fetch_frame s pid) (\<lambda>(fetched, s1).
       case fetched of
         None \<Rightarrow> Inr (None, s1)
       | Some i \<Rightarrow> bind_e (ReadPageGuard_ctor pid i s1) (\<lambda>(g, s2). Inr (Some g, s2)))"

section \<open>Example states\<close>

text \<open>
  The states that the theorems below are instantiated with. \<open>INVALID_PAGE_ID\<close> is
  BusTub's constant; the examples take it as the first \<^verbatim>\<open>page_id_\<close> of a frame.
\<close>

definition INVALID_PAGE_ID :: page_id_t where
  "INVALID_PAGE_ID = - 1"

text \<open>A pool of one frame with K = 2, as its constructor leaves it.\<close>

definition pool1 :: BufferPoolManager where
  "pool1 = BufferPoolManager_init 1 2 INVALID_PAGE_ID"

text \<open>A pool of two frames with K = 2, as its constructor leaves it.\<close>

definition pool2 :: BufferPoolManager where
  "pool2 = BufferPoolManager_init 2 2 INVALID_PAGE_ID"

text \<open>The guard that a fetch of page 0 into frame 0 returns.\<close>

definition guard_page0 :: PageGuard where
  "guard_page0 =
     \<lparr>g_page_id = 0, g_frame = Some 0, g_replacer = True, g_bpm_latch = True,
      g_is_valid = True\<rparr>"

text \<open>
  \<open>pool1\<close> after \<^verbatim>\<open>CheckedReadPage(0)\<close> and after \<^verbatim>\<open>CheckedWritePage(0)\<close>
  (lemmas \<open>pool1_read_page0\<close> and \<open>pool1_write_page0\<close>).
\<close>

definition pool1_reading :: BufferPoolManager where
  "pool1_reading =
     \<lparr>num_frames = 1, next_page_id = 0, bpm_latch = True,
      frames = [\<lparr>frame_id = 0, rwlatch = \<lparr>writer = False, readers = 1\<rparr>, pin_count = 1,
                 is_dirty = False, data = replicate BUSTUB_PAGE_SIZE 0, page_id = 0\<rparr>],
      page_table = [0 \<mapsto> 0],
      free_frames = [],
      replacer = \<lparr>node_store = [0 \<mapsto> \<lparr>history = [0], is_evictable = False\<rparr>],
                  current_timestamp = 1, curr_size = 0, replacer_size = 1, k_dist = 2,
                  new_frames = [0], cache_frames = []\<rparr>,
      disk_scheduler = \<lparr>disk_pages = (\<lambda>_. replicate BUSTUB_PAGE_SIZE 0),
                        calls = [ReadRequest 0]\<rparr>\<rparr>"

definition pool1_writing :: BufferPoolManager where
  "pool1_writing =
     \<lparr>num_frames = 1, next_page_id = 0, bpm_latch = True,
      frames = [\<lparr>frame_id = 0, rwlatch = \<lparr>writer = True, readers = 0\<rparr>, pin_count = 1,
                 is_dirty = True, data = replicate BUSTUB_PAGE_SIZE 0, page_id = 0\<rparr>],
      page_table = [0 \<mapsto> 0],
      free_frames = [],
      replacer = \<lparr>node_store = [0 \<mapsto> \<lparr>history = [0], is_evictable = False\<rparr>],
                  current_timestamp = 1, curr_size = 0, replacer_size = 1, k_dist = 2,
                  new_frames = [0], cache_frames = []\<rparr>,
      disk_scheduler = \<lparr>disk_pages = (\<lambda>_. replicate BUSTUB_PAGE_SIZE 0),
                        calls = [ReadRequest 0]\<rparr>\<rparr>"

text \<open>Two guard variables of a client: the first holds \<open>guard_page0\<close>, the second is empty.\<close>

definition two_guards :: "nat \<Rightarrow> PageGuard" where
  "two_guards = (\<lambda>_. default_guard)(0 := guard_page0)"

text \<open>
  States with two live guards. No sequence of calls reaches them, since the fetch that
  returns the first guard keeps the pool latch; they are what the second fetch makes once
  the latch has been released by hand (lemmas \<open>pool1_read_page0_twice\<close> and
  \<open>pool2_write_page0_page1\<close>): \<open>pool1\<close> with two read guards on page 0, and \<open>pool2\<close>
  with a write guard on page 0 and one on page 1.
\<close>

definition guard_page1 :: PageGuard where
  "guard_page1 =
     \<lparr>g_page_id = 1, g_frame = Some 1, g_replacer = True, g_bpm_latch = True,
      g_is_valid = True\<rparr>"

definition pool1_two_readers :: BufferPoolManager where
  "pool1_two_readers =
     \<lparr>num_frames = 1, next_page_id = 0, bpm_latch = True,
      frames = [\<lparr>frame_id = 0, rwlatch = \<lparr>writer = False, readers = 2\<rparr>, pin_count = 2,
                 is_dirty = False, data = replicate BUSTUB_PAGE_SIZE 0, page_id = 0\<rparr>],
      page_table = [0 \<mapsto> 0],
      free_frames = [],
      replacer = \<lparr>node_store = [0 \<mapsto> \<lparr>history = [1, 0], is_evictable = False\<rparr>],
                  current_timestamp = 2, curr_size = 0, replacer_size = 1, k_dist = 2,
                  new_frames = [], cache_frames = [0]\<rparr>,
      disk_scheduler = \<lparr>disk_pages = (\<lambda>_. replicate BUSTUB_PAGE_SIZE 0),
                        calls = [ReadRequest 0]\<rparr>\<rparr>"

definition pool2_two_writers :: BufferPoolManager where
  "pool2_two_writers =
     \<lparr>num_frames = 2, next_page_id = 0, bpm_latch = True,
      frames = [\<lparr>frame_id = 0, rwlatch = \<lparr>writer = True, readers = 0\<rparr>, pin_count = 1,
                 is_dirty = True, data = replicate BUSTUB_PAGE_SIZE 0, page_id = 0\<rparr>,
                \<lparr>frame_id = 1, rwlatch = \<lparr>writer = True, readers = 0\<rparr>, pin_count = 1,
                 is_dirty = True, data = replicate BUSTUB_PAGE_SIZE 0, page_id = 1\<rparr>],
      page_table = [0 \<mapsto> 0, 1 \<mapsto> 1],
      free_frames = [],
      replacer = \<lparr>node_store = [0 \<mapsto> \<lparr>history = [0], is_evictable = False\<rparr>,
                                 1 \<mapsto> \<lparr>history = [1], is_evictable = False\<rparr>],
                  current_timestamp = 2, curr_size = 0, replacer_size = 2, k_dist = 2,
                  new_frames = [1, 0], cache_frames = []\<rparr>,
      disk_scheduler = \<lparr>disk_pages = (\<lambda>_. replicate BUSTUB_PAGE_SIZE 0),
                        calls = [ReadRequest 0, ReadRequest 1]\<rparr>\<rparr>"

text \<open>
  Two guard variables that are both live: two read guards on page 0, and a write guard
  on page 0 beside a write guard on page 1.
\<close>

definition two_read_guards :: "nat \<Rightarrow> PageGuard" where
  "two_read_guards = (\<lambda>_. default_guard)(0 := guard_page0, 1 := guard_page0)"

definition two_write_guards :: "nat \<Rightarrow> PageGuard" where
  "two_write_guards = (\<lambda>_. default_guard)(0 := guard_page0, 1 := guard_page1)"

section \<open>Evaluation\<close>

text \<open>The definitions that \<open>simp\<close> unfolds to run the replacer on a concrete input.\<close>

lemmas replacer_defs =
  bind_e_def LRUKReplacer_init_def RecordAccess_def static_cast_int_def promote_def
  reposition_def erase_located_def insert_before_def history_back_def default_node_def
  SetEvictable_def Evict_def Remove_def cache_keys_def

lemmas pool_defs =
  BufferPoolManager_init_def FrameHeader_init_def Reset_def DiskScheduler_init_def
  schedule_write_def schedule_read_def DeallocatePage_def IncreaseDiskSpace_def
  lock_latch_def unlock_latch_def frame_index_def FlushPage_def pin_frame_def load_page_def
  choose_frame_def fetch_frame_def CheckedWritePage_def CheckedReadPage_def
  WritePageGuard_ctor_def ReadPageGuard_ctor_def rw_lock_def rw_lock_shared_def
  rw_unlock_def rw_unlock_shared_def NewPage_def DeletePage_def FlushAllPages_def
  ReadPageGuard_Drop_def WritePageGuard_Drop_def unpin_def released_def IsDirty_def
  ReadPageGuard_move_assign_def WritePageGuard_move_assign_def
  ReadPageGuard_move_ctor_def WritePageGuard_move_ctor_def take_over_def moved_from_def

lemmas example_defs =
  pool1_def pool2_def guard_page0_def pool1_reading_def pool1_writing_def two_guards_def
  INVALID_PAGE_ID_def

text \<open>The example states are what the two fetches of page 0 make of \<open>pool1\<close>.\<close>

lemma pool1_read_page0: "CheckedReadPage pool1 0 = Inr (Some guard_page0, pool1_reading)"
  by (simp add: replacer_defs pool_defs example_defs upt_rec)

lemma pool1_write_page0: "CheckedWritePage pool1 0 = Inr (Some guard_page0, pool1_writing)"
  by (simp add: replacer_defs pool_defs example_defs upt_rec)

text \<open>The states with two live guards, from a second fetch after the latch is released.\<close>

lemma pool1_read_page0_twice:
  "CheckedReadPage (unlock_latch pool1_reading) 0 = Inr (Some guard_page0, pool1_two_readers)"
  by (simp add: replacer_defs pool_defs example_defs pool1_two_readers_def)

lemma pool2_write_page0_page1:
  "bind_e (CheckedWritePage pool2 0) (\<lambda>(g, s). CheckedWritePage (unlock_latch s) 1)
   = Inr (Some guard_page1, pool2_two_writers)"
  by (simp add: replacer_defs pool_defs example_defs pool2_two_writers_def guard_page1_def
      upt_rec)

section \<open>The replacer\<close>

text \<open>
  C3. With K = 2 and three frames, the accesses F0, F1, F2, F0, F1 get the timestamps 0
  to 4: F0 has the history 3, 0, F1 has 4, 1 and F2 has 2; F2 is alone in the New list and
  the Cache list is F1, F0. With all three frames evictable, the first \<open>Evict\<close> returns
  F2 and the second returns F0.
\<close>

theorem C3_evict_order_k2:
  "map_sum id (\<lambda>r. (map (map_option history \<circ> node_store r) [0, 1, 2],
                      new_frames r, cache_frames r))
     (record_accesses (LRUKReplacer_init 3 2) [0, 1, 2, 0, 1])
   = Inr ([Some [3, 0], Some [4, 1], Some [2]], [2], [1, 0])
   \<and> bind_e (record_accesses (LRUKReplacer_init 3 2) [0, 1, 2, 0, 1]) (\<lambda>r.
        case Evict (set_all_evictable r [0, 1, 2]) of
          (first, r1) \<Rightarrow> Inr (first, fst (Evict r1)))
     = Inr (Some 2, Some 0)"
  by (simp add: replacer_defs)

text \<open>
  C1 (violated by the code). With K = 2, the accesses F0, F1, F1, F0 promote F1 first
  (K-th timestamp 1) and F0 second (K-th timestamp 0). The search loop of case (3) finds
  no cached frame with a smaller K-th timestamp and leaves the insert position at
  \<^verbatim>\<open>begin()\<close>, so F0 goes to the front: the Cache list is F0, F1 with K-th timestamps
  0, 1 from front to back, the oldest at the front. With both frames evictable \<open>Evict\<close>
  then returns F1, not the frame with the oldest K-th timestamp.
\<close>

theorem C1_promotion_puts_oldest_at_front:
  "map_sum id (\<lambda>r. (cache_frames r, cache_keys r))
     (record_accesses (LRUKReplacer_init 2 2) [0, 1, 1, 0])
   = Inr ([0, 1], [Inr 0, Inr 1])
   \<and> bind_e (record_accesses (LRUKReplacer_init 2 2) [0, 1, 1, 0])
        (\<lambda>r. Inr (fst (Evict (set_all_evictable r [0, 1]))))
     = Inr (Some 1)"
  by (simp add: replacer_defs)

subsection \<open>The order of the Cache list, case by case\<close>

text \<open>
  The loops of cases (3) and (4) over a list whose nodes all have a history: case (3)
  finds the first frame with a smaller K-th timestamp, case (4) counts the frames it
  passes on the way to the front.
\<close>

lemma history_back_eq: "has_history ns i \<Longrightarrow> history_back ns i = Inr (kth_timestamp ns i)"
  by (auto simp: has_history_def history_back_def kth_timestamp_def split: option.splits)

lemma steps_to_front_eq:
  "list_all (has_history ns) ys \<Longrightarrow>
   steps_to_front kts ns ys = Inr (length (takeWhile (\<lambda>i. \<not> kts < kth_timestamp ns i) ys))"
  by (induction ys) (simp_all add: history_back_eq bind_e_def)

lemma first_older_eq:
  "list_all (has_history ns) ys \<Longrightarrow>
   first_older kts ns ys = Inr (List.find (\<lambda>i. kth_timestamp ns i < kts) ys)"
  by (induction ys) (simp_all add: history_back_eq)

lemma take_rev_dropWhile:
  "take (length xs - length (takeWhile P (rev xs))) xs = rev (dropWhile P (rev xs))"
proof -
  have "rev xs = takeWhile P (rev xs) @ dropWhile P (rev xs)" by simp
  then have "xs = rev (dropWhile P (rev xs)) @ rev (takeWhile P (rev xs))"
    by (metis rev_append rev_rev_ident)
  moreover have "length (rev (dropWhile P (rev xs))) = length xs - length (takeWhile P (rev xs))"
    by (metis length_rev length_dropWhile_le takeWhile_dropWhile_id length_append add_diff_cancel_left')
  ultimately show ?thesis
    by (metis append_eq_conv_conj)
qed

lemma drop_rev_takeWhile:
  "drop (length xs - length (takeWhile P (rev xs))) xs = rev (takeWhile P (rev xs))"
proof -
  have "rev xs = takeWhile P (rev xs) @ dropWhile P (rev xs)" by simp
  then have "xs = rev (dropWhile P (rev xs)) @ rev (takeWhile P (rev xs))"
    by (metis rev_append rev_rev_ident)
  moreover have "length (rev (dropWhile P (rev xs))) = length xs - length (takeWhile P (rev xs))"
    by (metis length_rev takeWhile_dropWhile_id length_append add_diff_cancel_left')
  ultimately show ?thesis
    by (metis append_eq_conv_conj)
qed

lemma ascending_dropWhile:
  fixes key :: "'a \<Rightarrow> size_t"
  assumes "sorted_wrt (\<lambda>a b. key a \<le> key b) ys"
  shows "\<forall>x\<in>set (dropWhile (\<lambda>i. \<not> kts < key i) ys). kts < key x"
  using assms
proof (induction ys)
  case Nil
  then show ?case by simp
next
  case (Cons y ys)
  from Cons.prems have tail: "sorted_wrt (\<lambda>a b. key a \<le> key b) ys"
    and head: "\<forall>x\<in>set ys. key y \<le> key x"
    by simp_all
  show ?case
  proof (cases "kts < key y")
    case True
    have "kts < key x" if "x \<in> set (y # ys)" for x
    proof (cases "x = y")
      case True
      with \<open>kts < key y\<close> show ?thesis by simp
    next
      case False
      with that have "x \<in> set ys" by simp
      with head have "key y \<le> key x" by blast
      with \<open>kts < key y\<close> show ?thesis by (rule less_le_trans)
    qed
    with True show ?thesis by simp
  next
    case False
    then have "dropWhile (\<lambda>i. \<not> kts < key i) (y # ys) = dropWhile (\<lambda>i. \<not> kts < key i) ys"
      by simp
    with Cons.IH [OF tail] show ?thesis by (simp only:)
  qed
qed

lemma sorted_wrt_insert_between:
  assumes "sorted_wrt R (xs @ ys)" and "\<forall>x\<in>set xs. R x f" and "\<forall>y\<in>set ys. R f y"
  shows "sorted_wrt R (xs @ f # ys)"
  using assms by (simp add: sorted_wrt_append)

lemma reposition_list_ordered:
  fixes key key' :: "frame_id_t \<Rightarrow> size_t"
  assumes sorted: "sorted_wrt (\<lambda>a b. key b \<le> key a) (before @ f # after)"
    and fresh: "f \<notin> set before" "f \<notin> set after"
    and same: "\<And>i. i \<noteq> f \<Longrightarrow> key' i = key i"
    and grows: "key f \<le> key' f"
  shows "sorted_wrt (\<lambda>a b. key' b \<le> key' a)
           (rev (dropWhile (\<lambda>i. \<not> key' f < key i) (rev before)) @ f #
            rev (takeWhile (\<lambda>i. \<not> key' f < key i) (rev before)) @ after)"
proof -
  let ?P = "\<lambda>i. \<not> key' f < key i"
  let ?A = "rev (dropWhile ?P (rev before))"
  let ?B = "rev (takeWhile ?P (rev before))"
  have split: "?A @ ?B = before"
    by (metis rev_append rev_rev_ident takeWhile_dropWhile_id)
  have sb: "sorted_wrt (\<lambda>a b. key b \<le> key a) before"
    and fa: "\<forall>y\<in>set after. key y \<le> key f"
    and rest: "sorted_wrt (\<lambda>a b. key b \<le> key a) (before @ after)"
    using sorted by (simp_all add: sorted_wrt_append)
  have asc: "sorted_wrt (\<lambda>a b. key a \<le> key b) (rev before)"
    using sb by (simp add: sorted_wrt_rev)
  have A: "\<forall>x\<in>set ?A. key' f < key x"
    using ascending_dropWhile [OF asc, of "key' f"] by (simp only: set_rev)
  have B: "\<forall>x\<in>set ?B. key x \<le> key' f"
  proof
    fix x assume "x \<in> set ?B"
    then have "x \<in> set (takeWhile ?P (rev before))" by (simp only: set_rev)
    then have "\<not> key' f < key x" by (rule set_takeWhileD [THEN conjunct2])
    then show "key x \<le> key' f" by (simp only: not_less)
  qed
  have sub: "set ?A \<subseteq> set before" "set ?B \<subseteq> set before"
    using split by (metis set_append Un_upper1, metis set_append Un_upper2)
  have keep: "key' x = key x" if "x \<in> set before \<or> x \<in> set after" for x
  proof -
    have "x \<noteq> f" using that fresh by blast
    then show ?thesis by (rule same)
  qed
  have "sorted_wrt (\<lambda>a b. key' b \<le> key' a) (before @ after)"
  proof (rule sorted_wrt_mono_rel [OF _ rest])
    fix x y assume "x \<in> set (before @ after)" "y \<in> set (before @ after)" "key y \<le> key x"
    then show "key' y \<le> key' x" using keep [of x] keep [of y] by simp
  qed
  then have base: "sorted_wrt (\<lambda>a b. key' b \<le> key' a) (?A @ (?B @ after))"
    by (simp only: append_assoc [symmetric] split)
  have left: "\<forall>x\<in>set ?A. key' f \<le> key' x"
  proof
    fix x assume x: "x \<in> set ?A"
    then have "x \<in> set before" using sub by blast
    then have "key' x = key x" using keep by blast
    moreover have "key' f < key x" using A x by blast
    ultimately show "key' f \<le> key' x" by simp
  qed
  have right: "\<forall>y\<in>set (?B @ after). key' y \<le> key' f"
  proof
    fix y assume "y \<in> set (?B @ after)"
    then consider "y \<in> set ?B" | "y \<in> set after" by (simp only: set_append Un_iff) blast
    then show "key' y \<le> key' f"
    proof cases
      case 1
      then have "y \<in> set before" using sub by blast
      then have "key' y = key y" using keep by blast
      moreover have "key y \<le> key' f" using B 1 by blast
      ultimately show ?thesis by simp
    next
      case 2
      then have "key' y = key y" using keep by blast
      moreover have "key y \<le> key f" using fa 2 by blast
      ultimately show ?thesis using grows by simp
    qed
  qed
  show ?thesis
    by (rule sorted_wrt_insert_between [OF base left right])
qed

lemma split_at_member:
  assumes "f \<in> set xs" and "distinct xs"
  shows "xs = takeWhile (\<lambda>x. x \<noteq> f) xs @ f # tl (dropWhile (\<lambda>x. x \<noteq> f) xs)"
    and "remove1 f xs = takeWhile (\<lambda>x. x \<noteq> f) xs @ tl (dropWhile (\<lambda>x. x \<noteq> f) xs)"
    and "f \<notin> set (takeWhile (\<lambda>x. x \<noteq> f) xs)"
    and "f \<notin> set (tl (dropWhile (\<lambda>x. x \<noteq> f) xs))"
  using assms by (induction xs) auto

lemma kth_timestamp_other:
  "i \<noteq> fid \<Longrightarrow> kth_timestamp (ns(fid \<mapsto> n)) i = kth_timestamp ns i"
  by (simp add: kth_timestamp_def)

lemma has_history_other:
  "i \<noteq> fid \<Longrightarrow> has_history (ns(fid \<mapsto> n)) i = has_history ns i"
  by (simp add: has_history_def)

text \<open>
  Case (4) keeps the order: when the Cache list is ordered and the K-th timestamp of the
  accessed frame does not go back, the list is ordered after the frame is put back.
\<close>

lemma reposition_keeps_order:
  assumes dist: "distinct (cache_frames r)"
    and mem: "fid \<in> set (cache_frames r)"
    and hist: "list_all (has_history (node_store r)) (cache_frames r)"
    and ord: "newest_first (node_store r) (cache_frames r)"
    and grows: "kth_timestamp (node_store r) fid
                  \<le> last (butlast (current_timestamp r # history n))"
    and res: "reposition r fid n = Inr r'"
  shows "newest_first (node_store r') (cache_frames r')"
proof -
  define xs where "xs = cache_frames r"
  define h where "h = butlast (current_timestamp r # history n)"
  define ns where "ns = (node_store r)(fid \<mapsto> n\<lparr>history := h\<rparr>)"
  define before where "before = takeWhile (\<lambda>x. x \<noteq> fid) xs"
  define after where "after = tl (dropWhile (\<lambda>x. x \<noteq> fid) xs)"
  define key where "key = kth_timestamp (node_store r)"
  define key' where "key' = kth_timestamp ns"
  define m where "m = length (takeWhile (\<lambda>i. \<not> key' fid < key i) (rev before))"
  have parts: "xs = before @ fid # after" "remove1 fid xs = before @ after"
    "fid \<notin> set before" "fid \<notin> set after"
    using split_at_member [OF mem dist] by (simp_all add: xs_def before_def after_def)
  have unfolded: "reposition r fid n =
      (if h = [] then Inl Undefined
       else bind_e (erase_located fid xs) (\<lambda>rest.
              bind_e (steps_to_front (last h) ns (rev (take (length before) rest))) (\<lambda>m.
                Inr (r\<lparr>node_store := ns,
                       cache_frames := take (length before - m) rest @ fid #
                                       drop (length before - m) rest\<rparr>))))"
    by (simp add: reposition_def Let_def h_def ns_def xs_def before_def)
  have h: "h \<noteq> []"
    using res unfolded by (auto split: if_splits)
  have kts: "key' fid = last h"
    by (simp add: key'_def ns_def kth_timestamp_def)
  have other: "key' i = key i" if "i \<noteq> fid" for i
    using that by (simp add: key'_def key_def ns_def kth_timestamp_other)
  have erased: "erase_located fid xs = Inr (before @ after)"
    using mem parts(2) by (simp add: erase_located_def xs_def)
  have hist_before: "list_all (has_history ns) (rev before)"
  proof -
    have "has_history ns i" if "i \<in> set before" for i
    proof -
      from that have "i \<noteq> fid" using parts(3) by blast
      moreover from that have "i \<in> set xs" using parts(1) by simp
      then have "has_history (node_store r) i" using hist by (simp add: list_all_iff xs_def)
      ultimately show ?thesis by (simp add: ns_def has_history_other)
    qed
    then show ?thesis by (simp add: list_all_iff)
  qed
  have same_pred: "takeWhile (\<lambda>i. \<not> last h < kth_timestamp ns i) (rev before)
      = takeWhile (\<lambda>i. \<not> key' fid < key i) (rev before)"
  proof (rule takeWhile_cong [OF refl])
    fix i assume "i \<in> set (rev before)"
    then have "i \<noteq> fid" using parts(3) by auto
    then have "kth_timestamp ns i = key i" using other by (simp add: key'_def)
    then show "(\<not> last h < kth_timestamp ns i) = (\<not> key' fid < key i)"
      by (simp only: kts)
  qed
  have steps: "steps_to_front (last h) ns (rev before) = Inr m"
    using steps_to_front_eq [OF hist_before, of "last h"] by (simp only: same_pred m_def)
  have "reposition r fid n =
      Inr (r\<lparr>node_store := ns,
             cache_frames := take (length before - m) (before @ after) @ fid #
                             drop (length before - m) (before @ after)\<rparr>)"
    using h erased steps by (simp add: unfolded bind_e_def)
  with res have r': "node_store r' = ns"
    "cache_frames r' = take (length before - m) (before @ after) @ fid #
                       drop (length before - m) (before @ after)"
    by auto
  have m_le: "m \<le> length before"
    unfolding m_def by (metis length_rev length_takeWhile_le)
  have "take (length before - m) before = rev (dropWhile (\<lambda>i. \<not> key' fid < key i) (rev before))"
    and "drop (length before - m) before = rev (takeWhile (\<lambda>i. \<not> key' fid < key i) (rev before))"
    unfolding m_def by (rule take_rev_dropWhile, rule drop_rev_takeWhile)
  then have list: "cache_frames r' =
      rev (dropWhile (\<lambda>i. \<not> key' fid < key i) (rev before)) @ fid #
      rev (takeWhile (\<lambda>i. \<not> key' fid < key i) (rev before)) @ after"
    using m_le by (simp add: r'(2))
  have sorted: "sorted_wrt (\<lambda>a b. key b \<le> key a) (before @ fid # after)"
    using ord parts(1) by (simp add: newest_first_def key_def xs_def)
  have "sorted_wrt (\<lambda>a b. key' b \<le> key' a)
      (rev (dropWhile (\<lambda>i. \<not> key' fid < key i) (rev before)) @ fid #
       rev (takeWhile (\<lambda>i. \<not> key' fid < key i) (rev before)) @ after)"
  proof (rule reposition_list_ordered [OF sorted parts(3) parts(4)])
    show "key' i = key i" if "i \<noteq> fid" for i
      using that by (rule other)
    show "key fid \<le> key' fid"
      using grows by (simp add: kts key_def h_def)
  qed
  then show ?thesis
    by (simp only: newest_first_def r'(1) list key'_def)
qed

lemma descending_dropWhile:
  fixes key :: "'a \<Rightarrow> size_t"
  assumes "sorted_wrt (\<lambda>a b. key b \<le> key a) ys"
  shows "\<forall>x\<in>set (dropWhile (\<lambda>i. \<not> key i < kts) ys). key x < kts"
  using assms
proof (induction ys)
  case Nil
  then show ?case by simp
next
  case (Cons y ys)
  from Cons.prems have tail: "sorted_wrt (\<lambda>a b. key b \<le> key a) ys"
    and head: "\<forall>x\<in>set ys. key x \<le> key y"
    by simp_all
  show ?case
  proof (cases "key y < kts")
    case True
    have "key x < kts" if "x \<in> set (y # ys)" for x
    proof (cases "x = y")
      case True
      with \<open>key y < kts\<close> show ?thesis by simp
    next
      case False
      with that have "x \<in> set ys" by simp
      with head have "key x \<le> key y" by blast
      then show ?thesis using \<open>key y < kts\<close> by (rule le_less_trans)
    qed
    with True show ?thesis by simp
  next
    case False
    then have "dropWhile (\<lambda>i. \<not> key i < kts) (y # ys) = dropWhile (\<lambda>i. \<not> key i < kts) ys"
      by simp
    with Cons.IH [OF tail] show ?thesis by (simp only:)
  qed
qed

lemma find_splits_list:
  "List.find Q xs = Some i \<Longrightarrow>
   takeWhile (\<lambda>x. x \<noteq> i) xs = takeWhile (\<lambda>x. \<not> Q x) xs
   \<and> dropWhile (\<lambda>x. x \<noteq> i) xs = dropWhile (\<lambda>x. \<not> Q x) xs"
proof (induction xs)
  case Nil
  then show ?case by simp
next
  case (Cons x xs)
  show ?case
  proof (cases "Q x")
    case True
    with Cons.prems show ?thesis by simp
  next
    case False
    with Cons.prems have f: "List.find Q xs = Some i" by simp
    then have "Q i" by (auto simp: find_Some_iff)
    with False have "x \<noteq> i" by blast
    with False Cons.IH [OF f] show ?thesis by simp
  qed
qed

lemma promote_unfolded:
  "promote r fid n =
     bind_e (erase_located fid (new_frames r)) (\<lambda>new'.
       bind_e (first_older (last (current_timestamp r # history n))
                 ((node_store r)(fid \<mapsto> n\<lparr>history := current_timestamp r # history n\<rparr>))
                 (cache_frames r)) (\<lambda>found.
         Inr (r\<lparr>node_store :=
                  (node_store r)(fid \<mapsto> n\<lparr>history := current_timestamp r # history n\<rparr>),
                new_frames := new',
                cache_frames := (case found of
                                   None \<Rightarrow> fid # cache_frames r
                                 | Some i \<Rightarrow> insert_before i fid (cache_frames r))\<rparr>)))"
  by (simp add: promote_def Let_def)

lemma promote_result:
  assumes fresh: "fid \<notin> set (cache_frames r)"
    and hist: "list_all (has_history (node_store r)) (cache_frames r)"
    and res: "promote r fid n = Inr r'"
  shows "node_store r' = (node_store r)(fid \<mapsto> n\<lparr>history := current_timestamp r # history n\<rparr>)"
    and "cache_frames r' =
      (case List.find (\<lambda>i. kth_timestamp (node_store r) i
                             < last (current_timestamp r # history n)) (cache_frames r) of
         None \<Rightarrow> fid # cache_frames r
       | Some i \<Rightarrow> insert_before i fid (cache_frames r))"
proof -
  define kts where "kts = last (current_timestamp r # history n)"
  define ns where "ns = (node_store r)(fid \<mapsto> n\<lparr>history := current_timestamp r # history n\<rparr>)"
  have hist': "list_all (has_history ns) (cache_frames r)"
  proof -
    have "has_history ns i" if "i \<in> set (cache_frames r)" for i
    proof -
      from that fresh have "i \<noteq> fid" by blast
      moreover from that hist have "has_history (node_store r) i" by (simp add: list_all_iff)
      ultimately show ?thesis by (simp add: ns_def has_history_other)
    qed
    then show ?thesis by (simp add: list_all_iff)
  qed
  have same: "List.find (\<lambda>i. kth_timestamp ns i < kts) (cache_frames r)
      = List.find (\<lambda>i. kth_timestamp (node_store r) i < kts) (cache_frames r)"
  proof (rule find_cong [OF refl])
    fix i assume "i \<in> set (cache_frames r)"
    with fresh have "i \<noteq> fid" by blast
    then show "(kth_timestamp ns i < kts) = (kth_timestamp (node_store r) i < kts)"
      by (simp add: ns_def kth_timestamp_other)
  qed
  have found: "first_older kts ns (cache_frames r)
      = Inr (List.find (\<lambda>i. kth_timestamp (node_store r) i < kts) (cache_frames r))"
    using first_older_eq [OF hist', of kts] by (simp only: same)
  from res obtain new' where
    "Inr r' = Inr (r\<lparr>node_store := ns, new_frames := new',
        cache_frames :=
          (case List.find (\<lambda>i. kth_timestamp (node_store r) i < kts) (cache_frames r) of
             None \<Rightarrow> fid # cache_frames r
           | Some i \<Rightarrow> insert_before i fid (cache_frames r))\<rparr>)"
    unfolding promote_unfolded ns_def [symmetric] kts_def [symmetric] found
    by (auto simp: bind_e_def split: sum.splits)
  then show "node_store r' = (node_store r)(fid \<mapsto> n\<lparr>history := current_timestamp r # history n\<rparr>)"
    and "cache_frames r' =
      (case List.find (\<lambda>i. kth_timestamp (node_store r) i
                             < last (current_timestamp r # history n)) (cache_frames r) of
         None \<Rightarrow> fid # cache_frames r
       | Some i \<Rightarrow> insert_before i fid (cache_frames r))"
    by (simp_all add: ns_def kts_def)
qed

text \<open>
  Case (3) keeps the order when some cached frame has a smaller K-th timestamp than the
  promoted frame, and breaks it when none has a smaller and one has a greater K-th
  timestamp: the promoted frame then goes to the front of frames that are newer.
\<close>

lemma promote_keeps_order_if_older_cached:
  assumes fresh: "fid \<notin> set (cache_frames r)"
    and hist: "list_all (has_history (node_store r)) (cache_frames r)"
    and ord: "newest_first (node_store r) (cache_frames r)"
    and older: "\<exists>i\<in>set (cache_frames r).
        kth_timestamp (node_store r) i < last (current_timestamp r # history n)"
    and res: "promote r fid n = Inr r'"
  shows "newest_first (node_store r') (cache_frames r')"
proof -
  define xs where "xs = cache_frames r"
  define kts where "kts = last (current_timestamp r # history n)"
  define ns where "ns = (node_store r)(fid \<mapsto> n\<lparr>history := current_timestamp r # history n\<rparr>)"
  define key where "key = kth_timestamp (node_store r)"
  define key' where "key' = kth_timestamp ns"
  note result = promote_result [OF fresh hist res]
  have kfid: "key' fid = kts"
    by (simp add: key'_def ns_def kts_def kth_timestamp_def)
  have other: "key' i = key i" if "i \<in> set xs" for i
  proof -
    from that fresh have "i \<noteq> fid" by (auto simp: xs_def)
    then show ?thesis by (simp add: key'_def key_def ns_def kth_timestamp_other)
  qed
  from older obtain i where i: "List.find (\<lambda>i. key i < kts) xs = Some i"
    by (cases "List.find (\<lambda>i. key i < kts) xs")
       (auto simp: find_None_iff xs_def key_def kts_def)
  note cut = find_splits_list [OF i]
  have "cache_frames r' =
      (case List.find (\<lambda>i. key i < kts) xs of
         None \<Rightarrow> fid # xs
       | Some i \<Rightarrow> insert_before i fid xs)"
    using result(2) unfolding xs_def key_def kts_def .
  then have list: "cache_frames r' =
      takeWhile (\<lambda>x. \<not> key x < kts) xs @ fid # dropWhile (\<lambda>x. \<not> key x < kts) xs"
    by (simp only: i option.case insert_before_def cut)
  have sorted: "sorted_wrt (\<lambda>a b. key b \<le> key a) xs"
    using ord by (simp add: newest_first_def key_def xs_def)
  have "sorted_wrt (\<lambda>a b. key' b \<le> key' a) xs"
  proof (rule sorted_wrt_mono_rel [OF _ sorted])
    fix x y assume "x \<in> set xs" "y \<in> set xs" "key y \<le> key x"
    then show "key' y \<le> key' x" using other [of x] other [of y] by simp
  qed
  then have base: "sorted_wrt (\<lambda>a b. key' b \<le> key' a)
      (takeWhile (\<lambda>x. \<not> key x < kts) xs @ dropWhile (\<lambda>x. \<not> key x < kts) xs)"
    by (simp only: takeWhile_dropWhile_id)
  have left: "\<forall>x\<in>set (takeWhile (\<lambda>x. \<not> key x < kts) xs). key' fid \<le> key' x"
  proof
    fix x assume x: "x \<in> set (takeWhile (\<lambda>x. \<not> key x < kts) xs)"
    then have "x \<in> set xs" and "\<not> key x < kts"
      by (rule set_takeWhileD [THEN conjunct1], rule set_takeWhileD [THEN conjunct2])
    then show "key' fid \<le> key' x" using other [of x] by (simp add: kfid not_less)
  qed
  have right: "\<forall>y\<in>set (dropWhile (\<lambda>x. \<not> key x < kts) xs). key' y \<le> key' fid"
  proof
    fix y assume y: "y \<in> set (dropWhile (\<lambda>x. \<not> key x < kts) xs)"
    then have "y \<in> set xs" by (rule set_dropWhileD)
    moreover from y have "key y < kts" using descending_dropWhile [OF sorted, of kts] by blast
    ultimately show "key' y \<le> key' fid" using other [of y] by (simp add: kfid less_imp_le)
  qed
  have "sorted_wrt (\<lambda>a b. key' b \<le> key' a)
      (takeWhile (\<lambda>x. \<not> key x < kts) xs @ fid # dropWhile (\<lambda>x. \<not> key x < kts) xs)"
    by (rule sorted_wrt_insert_between [OF base left right])
  then show ?thesis
    by (simp only: newest_first_def result(1) list key'_def ns_def)
qed

lemma promote_breaks_order_if_oldest:
  assumes fresh: "fid \<notin> set (cache_frames r)"
    and hist: "list_all (has_history (node_store r)) (cache_frames r)"
    and none_older: "\<forall>i\<in>set (cache_frames r).
        \<not> kth_timestamp (node_store r) i < last (current_timestamp r # history n)"
    and newer: "\<exists>i\<in>set (cache_frames r).
        last (current_timestamp r # history n) < kth_timestamp (node_store r) i"
    and res: "promote r fid n = Inr r'"
  shows "\<not> newest_first (node_store r') (cache_frames r')"
proof -
  note result = promote_result [OF fresh hist res]
  have "List.find (\<lambda>i. kth_timestamp (node_store r) i
          < last (current_timestamp r # history n)) (cache_frames r) = None"
    using none_older by (simp add: find_None_iff)
  with result(2) have list: "cache_frames r' = fid # cache_frames r"
    by simp
  from newer obtain i where i: "i \<in> set (cache_frames r)"
    and lt: "last (current_timestamp r # history n) < kth_timestamp (node_store r) i"
    by blast
  from i fresh have "i \<noteq> fid" by blast
  then have ki: "kth_timestamp (node_store r') i = kth_timestamp (node_store r) i"
    by (simp add: result(1) kth_timestamp_other)
  have kf: "kth_timestamp (node_store r') fid = last (current_timestamp r # history n)"
    by (simp add: result(1) kth_timestamp_def)
  show ?thesis
  proof
    assume "newest_first (node_store r') (cache_frames r')"
    then have "kth_timestamp (node_store r') i \<le> kth_timestamp (node_store r') fid"
      using i by (simp add: newest_first_def list)
    with lt show False by (simp add: ki kf)
  qed
qed

subsection \<open>The range check\<close>

text \<open>The cast of a replacer size below \<open>2 ^ 31\<close> keeps its value.\<close>

lemma static_cast_int_small:
  assumes "uint (n :: size_t) < 2 ^ 31"
  shows "sint (static_cast_int n) = uint n"
proof -
  have low: "take_bit 32 (uint n) = uint n"
    using assms by (simp add: take_bit_int_eq_self)
  have "- (2 ^ 31) \<le> uint n"
    by (rule order_trans [of _ 0]) simp_all
  then have keep: "signed_take_bit 31 (uint n) = uint n"
    using assms by (intro signed_take_bit_int_eq_self) simp_all
  have "sint (ucast n :: 32 word) = signed_take_bit 31 (uint (ucast n :: 32 word))"
    by (simp add: sint_uint)
  also have "uint (ucast n :: 32 word) = take_bit 32 (uint n)"
    by (simp add: unsigned_ucast_eq)
  finally show ?thesis
    by (simp add: static_cast_int_def low keep)
qed

lemma sint_frame_id_less: "sint (fid :: frame_id_t) < 2 ^ 31"
  using sint_lt [of fid] by simp

text \<open>
  C6 as stated fails: with N = 3 frames, \<open>RecordAccess\<close> accepts the frame id 3 and the
  frame id -1; both are outside 0..N-1, and each gets a node at the front of the New
  list.
\<close>

theorem C6_out_of_range_accepted:
  "map_sum id new_frames (RecordAccess (LRUKReplacer_init 3 2) 3) = Inr [3]
   \<and> map_sum id new_frames (RecordAccess (LRUKReplacer_init 3 2) (- 1)) = Inr [- 1]"
  by (simp add: replacer_defs)

text \<open>
  C6, amended. For every frame id greater than N, the number of frames the replacer was
  constructed with, \<open>RecordAccess\<close> throws.
\<close>

theorem C6_record_access_rejects_larger:
  assumes "uint (replacer_size r) < sint fid"
  shows "RecordAccess r fid = Inl RuntimeError"
proof -
  have "uint (replacer_size r) < 2 ^ 31"
    using assms sint_frame_id_less [of fid] by linarith
  then have "sint (static_cast_int (replacer_size r)) = uint (replacer_size r)"
    by (rule static_cast_int_small)
  with assms show ?thesis
    by (simp add: RecordAccess_def)
qed

theorem C6_record_access_rejects_larger_witness:
  "uint (replacer_size (LRUKReplacer_init 3 2)) < sint (4 :: frame_id_t)
   \<and> RecordAccess (LRUKReplacer_init 3 2) 4 = Inl RuntimeError"
  using C6_record_access_rejects_larger [of "LRUKReplacer_init 3 2" 4]
  by (simp add: LRUKReplacer_init_def)

section \<open>Page guards\<close>

lemma ReadPageGuard_Drop_length:
  "ReadPageGuard_Drop g s = Inr (g1, s1) \<Longrightarrow> length (frames s1) = length (frames s)"
  by (auto simp: ReadPageGuard_Drop_def bind_e_def unpin_def Let_def
      split: if_splits option.splits sum.splits)

lemma WritePageGuard_Drop_length:
  "WritePageGuard_Drop g s = Inr (g1, s1) \<Longrightarrow> length (frames s1) = length (frames s)"
  by (auto simp: WritePageGuard_Drop_def bind_e_def unpin_def Let_def
      split: if_splits option.splits sum.splits)

lemma SetEvictable_twice:
  "SetEvictable (SetEvictable r fid b) fid b = SetEvictable r fid b"
  by (cases "node_store r fid") (simp_all add: SetEvictable_def)

text \<open>What \<open>SetEvictable\<close> does to the node of a frame the replacer knows.\<close>

lemma SetEvictable_marks:
  "node_store r fid = Some n \<Longrightarrow>
   node_store (SetEvictable r fid b) fid = Some (n\<lparr>is_evictable := b\<rparr>)"
  by (simp add: SetEvictable_def)

text \<open>
  C5. Dropping a valid guard (its frame pointer \<open>i\<close> and its replacer pointer are set, as
  the constructors leave them) whose frame holds the lock in the guard's mode: the call
  returns; the frame's pin count is one less (on \<^verbatim>\<open>size_t\<close>); the read guard
  gives back one shared hold of the frame's latch and the write guard the exclusive
  hold; \<open>is_dirty\<close> is what it was. The replacer is the old one after
  \<open>SetEvictable(frame_id, true)\<close> when the new pin count is zero, and the old one
  unchanged otherwise. Written out, when the new pin count is zero: a frame the
  replacer has a node for gets that node with \<open>is_evictable = true\<close>, and
  \<open>curr_size\<close> is one more unless the node was evictable already; a frame the replacer
  has no node for changes nothing; no other node, and neither list, is touched.
\<close>

theorem C5_drop_valid_guard:
  assumes "g_is_valid g" and "g_frame g = Some i" and "i < length (frames s)"
    and "g_replacer g"
  shows "(0 < readers (rwlatch (frames s ! i)) \<longrightarrow>
           (\<exists>s'. ReadPageGuard_Drop g s = Inr (released g, s')
              \<and> pin_count (frames s' ! i) = pin_count (frames s ! i) - 1
              \<and> replacer s' = (if pin_count (frames s' ! i) = 0
                               then SetEvictable (replacer s) (frame_id (frames s ! i)) True
                               else replacer s)
              \<and> replacer s' =
                  (if pin_count (frames s' ! i) = 0
                   then (case node_store (replacer s) (frame_id (frames s ! i)) of
                           None \<Rightarrow> replacer s
                         | Some n \<Rightarrow>
                             (replacer s)\<lparr>
                               curr_size := (if is_evictable n then curr_size (replacer s)
                                             else curr_size (replacer s) + 1),
                               node_store := (node_store (replacer s))
                                 (frame_id (frames s ! i) \<mapsto> n\<lparr>is_evictable := True\<rparr>)\<rparr>)
                   else replacer s)
              \<and> rwlatch (frames s' ! i) =
                  (rwlatch (frames s ! i))\<lparr>readers := readers (rwlatch (frames s ! i)) - 1\<rparr>
              \<and> is_dirty (frames s' ! i) = is_dirty (frames s ! i)))
       \<and> (writer (rwlatch (frames s ! i)) \<longrightarrow>
           (\<exists>s'. WritePageGuard_Drop g s = Inr (released g, s')
              \<and> pin_count (frames s' ! i) = pin_count (frames s ! i) - 1
              \<and> replacer s' = (if pin_count (frames s' ! i) = 0
                               then SetEvictable (replacer s) (frame_id (frames s ! i)) True
                               else replacer s)
              \<and> replacer s' =
                  (if pin_count (frames s' ! i) = 0
                   then (case node_store (replacer s) (frame_id (frames s ! i)) of
                           None \<Rightarrow> replacer s
                         | Some n \<Rightarrow>
                             (replacer s)\<lparr>
                               curr_size := (if is_evictable n then curr_size (replacer s)
                                             else curr_size (replacer s) + 1),
                               node_store := (node_store (replacer s))
                                 (frame_id (frames s ! i) \<mapsto> n\<lparr>is_evictable := True\<rparr>)\<rparr>)
                   else replacer s)
              \<and> rwlatch (frames s' ! i) = (rwlatch (frames s ! i))\<lparr>writer := False\<rparr>
              \<and> is_dirty (frames s' ! i) = is_dirty (frames s ! i)))"
  using assms
  by (simp add: ReadPageGuard_Drop_def WritePageGuard_Drop_def bind_e_def unpin_def Let_def
      rw_unlock_def rw_unlock_shared_def SetEvictable_def split: option.splits)

theorem C5_drop_valid_guard_witness:
  "g_is_valid guard_page0 \<and> g_frame guard_page0 = Some 0 \<and> g_replacer guard_page0
   \<and> 0 < length (frames pool1_reading) \<and> 0 < readers (rwlatch (frames pool1_reading ! 0))
   \<and> pin_count (frames pool1_reading ! 0) = 1
   \<and> node_store (replacer pool1_reading) 0 = Some \<lparr>history = [0], is_evictable = False\<rparr>
   \<and> curr_size (replacer pool1_reading) = 0
   \<and> (\<exists>s'. ReadPageGuard_Drop guard_page0 pool1_reading = Inr (released guard_page0, s')
         \<and> pin_count (frames s' ! 0) = 0
         \<and> node_store (replacer s') 0 = Some \<lparr>history = [0], is_evictable = True\<rparr>
         \<and> curr_size (replacer s') = 1
         \<and> rwlatch (frames s' ! 0) = \<lparr>writer = False, readers = 0\<rparr>
         \<and> is_dirty (frames s' ! 0) = False)
   \<and> 0 < length (frames pool1_writing) \<and> writer (rwlatch (frames pool1_writing ! 0))
   \<and> pin_count (frames pool1_writing ! 0) = 1
   \<and> node_store (replacer pool1_writing) 0 = Some \<lparr>history = [0], is_evictable = False\<rparr>
   \<and> curr_size (replacer pool1_writing) = 0
   \<and> (\<exists>s'. WritePageGuard_Drop guard_page0 pool1_writing = Inr (released guard_page0, s')
         \<and> pin_count (frames s' ! 0) = 0
         \<and> node_store (replacer s') 0 = Some \<lparr>history = [0], is_evictable = True\<rparr>
         \<and> curr_size (replacer s') = 1
         \<and> rwlatch (frames s' ! 0) = \<lparr>writer = False, readers = 0\<rparr>
         \<and> is_dirty (frames s' ! 0) = True)
   \<and> 0 < length (frames pool1_two_readers)
   \<and> 0 < readers (rwlatch (frames pool1_two_readers ! 0))
   \<and> pin_count (frames pool1_two_readers ! 0) = 2
   \<and> (\<exists>s'. ReadPageGuard_Drop guard_page0 pool1_two_readers = Inr (released guard_page0, s')
         \<and> pin_count (frames s' ! 0) = 1
         \<and> replacer s' = replacer pool1_two_readers
         \<and> node_store (replacer s') 0 = Some \<lparr>history = [1, 0], is_evictable = False\<rparr>
         \<and> curr_size (replacer s') = 0
         \<and> rwlatch (frames s' ! 0) = \<lparr>writer = False, readers = 1\<rparr>
         \<and> is_dirty (frames s' ! 0) = False)"
proof -
  have g: "g_is_valid guard_page0" "g_frame guard_page0 = Some 0" "g_replacer guard_page0"
    by (simp_all add: guard_page0_def)
  have r: "0 < length (frames pool1_reading)" "0 < readers (rwlatch (frames pool1_reading ! 0))"
    "pin_count (frames pool1_reading ! 0) = 1"
    "node_store (replacer pool1_reading) 0 = Some \<lparr>history = [0], is_evictable = False\<rparr>"
    "curr_size (replacer pool1_reading) = 0"
    by (simp_all add: pool1_reading_def)
  have r': "frame_id (frames pool1_reading ! 0) = 0"
    "rwlatch (frames pool1_reading ! 0) = \<lparr>writer = False, readers = 1\<rparr>"
    "is_dirty (frames pool1_reading ! 0) = False"
    by (simp_all add: pool1_reading_def)
  have w: "0 < length (frames pool1_writing)" "writer (rwlatch (frames pool1_writing ! 0))"
    "pin_count (frames pool1_writing ! 0) = 1"
    "node_store (replacer pool1_writing) 0 = Some \<lparr>history = [0], is_evictable = False\<rparr>"
    "curr_size (replacer pool1_writing) = 0"
    by (simp_all add: pool1_writing_def)
  have w': "frame_id (frames pool1_writing ! 0) = 0"
    "rwlatch (frames pool1_writing ! 0) = \<lparr>writer = True, readers = 0\<rparr>"
    "is_dirty (frames pool1_writing ! 0) = True"
    by (simp_all add: pool1_writing_def)
  have t: "0 < length (frames pool1_two_readers)"
    "0 < readers (rwlatch (frames pool1_two_readers ! 0))"
    "pin_count (frames pool1_two_readers ! 0) = 2"
    by (simp_all add: pool1_two_readers_def)
  have t': "frame_id (frames pool1_two_readers ! 0) = 0"
    "rwlatch (frames pool1_two_readers ! 0) = \<lparr>writer = False, readers = 2\<rparr>"
    "is_dirty (frames pool1_two_readers ! 0) = False"
    "node_store (replacer pool1_two_readers) 0 = Some \<lparr>history = [1, 0], is_evictable = False\<rparr>"
    "curr_size (replacer pool1_two_readers) = 0"
    by (simp_all add: pool1_two_readers_def)
  from C5_drop_valid_guard [OF g(1) g(2) r(1) g(3)] r(2)
  obtain s1 where "ReadPageGuard_Drop guard_page0 pool1_reading = Inr (released guard_page0, s1)"
    "pin_count (frames s1 ! 0) = pin_count (frames pool1_reading ! 0) - 1"
    "replacer s1 =
       (if pin_count (frames s1 ! 0) = 0
        then (case node_store (replacer pool1_reading) (frame_id (frames pool1_reading ! 0)) of
                None \<Rightarrow> replacer pool1_reading
              | Some n \<Rightarrow>
                  (replacer pool1_reading)\<lparr>
                    curr_size := (if is_evictable n then curr_size (replacer pool1_reading)
                                  else curr_size (replacer pool1_reading) + 1),
                    node_store := (node_store (replacer pool1_reading))
                      (frame_id (frames pool1_reading ! 0) \<mapsto> n\<lparr>is_evictable := True\<rparr>)\<rparr>)
        else replacer pool1_reading)"
    "rwlatch (frames s1 ! 0) =
       (rwlatch (frames pool1_reading ! 0))\<lparr>readers := readers (rwlatch (frames pool1_reading ! 0)) - 1\<rparr>"
    "is_dirty (frames s1 ! 0) = is_dirty (frames pool1_reading ! 0)"
    by blast
  then have rd: "\<exists>s'. ReadPageGuard_Drop guard_page0 pool1_reading = Inr (released guard_page0, s')
         \<and> pin_count (frames s' ! 0) = 0
         \<and> node_store (replacer s') 0 = Some \<lparr>history = [0], is_evictable = True\<rparr>
         \<and> curr_size (replacer s') = 1
         \<and> rwlatch (frames s' ! 0) = \<lparr>writer = False, readers = 0\<rparr>
         \<and> is_dirty (frames s' ! 0) = False"
    by (simp add: r r')
  from C5_drop_valid_guard [OF g(1) g(2) w(1) g(3)] w(2)
  obtain s2 where "WritePageGuard_Drop guard_page0 pool1_writing = Inr (released guard_page0, s2)"
    "pin_count (frames s2 ! 0) = pin_count (frames pool1_writing ! 0) - 1"
    "replacer s2 =
       (if pin_count (frames s2 ! 0) = 0
        then (case node_store (replacer pool1_writing) (frame_id (frames pool1_writing ! 0)) of
                None \<Rightarrow> replacer pool1_writing
              | Some n \<Rightarrow>
                  (replacer pool1_writing)\<lparr>
                    curr_size := (if is_evictable n then curr_size (replacer pool1_writing)
                                  else curr_size (replacer pool1_writing) + 1),
                    node_store := (node_store (replacer pool1_writing))
                      (frame_id (frames pool1_writing ! 0) \<mapsto> n\<lparr>is_evictable := True\<rparr>)\<rparr>)
        else replacer pool1_writing)"
    "rwlatch (frames s2 ! 0) = (rwlatch (frames pool1_writing ! 0))\<lparr>writer := False\<rparr>"
    "is_dirty (frames s2 ! 0) = is_dirty (frames pool1_writing ! 0)"
    by blast
  then have wr: "\<exists>s'. WritePageGuard_Drop guard_page0 pool1_writing = Inr (released guard_page0, s')
         \<and> pin_count (frames s' ! 0) = 0
         \<and> node_store (replacer s') 0 = Some \<lparr>history = [0], is_evictable = True\<rparr>
         \<and> curr_size (replacer s') = 1
         \<and> rwlatch (frames s' ! 0) = \<lparr>writer = False, readers = 0\<rparr>
         \<and> is_dirty (frames s' ! 0) = True"
    by (simp add: w w')
  from C5_drop_valid_guard [OF g(1) g(2) t(1) g(3)] t(2)
  obtain s3 where "ReadPageGuard_Drop guard_page0 pool1_two_readers = Inr (released guard_page0, s3)"
    "pin_count (frames s3 ! 0) = pin_count (frames pool1_two_readers ! 0) - 1"
    "replacer s3 =
       (if pin_count (frames s3 ! 0) = 0
        then (case node_store (replacer pool1_two_readers) (frame_id (frames pool1_two_readers ! 0)) of
                None \<Rightarrow> replacer pool1_two_readers
              | Some n \<Rightarrow>
                  (replacer pool1_two_readers)\<lparr>
                    curr_size := (if is_evictable n then curr_size (replacer pool1_two_readers)
                                  else curr_size (replacer pool1_two_readers) + 1),
                    node_store := (node_store (replacer pool1_two_readers))
                      (frame_id (frames pool1_two_readers ! 0) \<mapsto> n\<lparr>is_evictable := True\<rparr>)\<rparr>)
        else replacer pool1_two_readers)"
    "rwlatch (frames s3 ! 0) =
       (rwlatch (frames pool1_two_readers ! 0))\<lparr>readers := readers (rwlatch (frames pool1_two_readers ! 0)) - 1\<rparr>"
    "is_dirty (frames s3 ! 0) = is_dirty (frames pool1_two_readers ! 0)"
    by blast
  then have tw: "\<exists>s'. ReadPageGuard_Drop guard_page0 pool1_two_readers = Inr (released guard_page0, s')
         \<and> pin_count (frames s' ! 0) = 1
         \<and> replacer s' = replacer pool1_two_readers
         \<and> node_store (replacer s') 0 = Some \<lparr>history = [1, 0], is_evictable = False\<rparr>
         \<and> curr_size (replacer s') = 0
         \<and> rwlatch (frames s' ! 0) = \<lparr>writer = False, readers = 1\<rparr>
         \<and> is_dirty (frames s' ! 0) = False"
    by (simp add: t t')
  show ?thesis using g r w t rd wr tw by blast
qed

text \<open>
  C8. A second \<open>Drop\<close> after a first one changes nothing: the two calls in sequence are
  the first call alone, for both guards; and \<open>Drop\<close> on an invalid guard returns the
  guard and the state as they are.
\<close>

theorem C8_drop_idempotent:
  "bind_e (ReadPageGuard_Drop g s) (\<lambda>(g', s'). ReadPageGuard_Drop g' s') = ReadPageGuard_Drop g s
   \<and> bind_e (WritePageGuard_Drop g s) (\<lambda>(g', s'). WritePageGuard_Drop g' s') = WritePageGuard_Drop g s
   \<and> ReadPageGuard_Drop (g\<lparr>g_is_valid := False\<rparr>) s = Inr (g\<lparr>g_is_valid := False\<rparr>, s)
   \<and> WritePageGuard_Drop (g\<lparr>g_is_valid := False\<rparr>) s = Inr (g\<lparr>g_is_valid := False\<rparr>, s)"
  by (auto simp: ReadPageGuard_Drop_def WritePageGuard_Drop_def bind_e_def released_def
      split: option.splits sum.splits)

text \<open>The guard a move leaves behind is invalid, so its \<open>Drop\<close> returns at once.\<close>

lemma Drop_moved_from:
  "ReadPageGuard_Drop (moved_from g) s = Inr (moved_from g, s)"
  "WritePageGuard_Drop (moved_from g) s = Inr (moved_from g, s)"
  by (simp_all add: ReadPageGuard_Drop_def WritePageGuard_Drop_def moved_from_def)

lemma overwrite_all_fields:
  "g\<lparr>g_page_id := g_page_id h, g_frame := g_frame h, g_replacer := g_replacer h,
     g_bpm_latch := g_bpm_latch h, g_is_valid := g_is_valid h\<rparr> = (h :: PageGuard)"
  by (cases g, cases h) simp

lemma take_over_eq:
  "take_over gs this that s =
     (if \<not> g_replacer (gs that) then Inl Undefined
      else case g_frame (gs that) of
             None \<Rightarrow> Inl Undefined
           | Some i \<Rightarrow>
               if i < length (frames s)
               then Inr (gs(this := gs that, that := moved_from (gs that)),
                         s\<lparr>replacer :=
                             SetEvictable (replacer s) (frame_id (frames s ! i)) False\<rparr>)
               else Inl Undefined)"
  by (simp add: take_over_def Let_def overwrite_all_fields)

lemma take_over_valid:
  assumes "this \<noteq> that" and "g_frame (gs that) = Some i" and "i < length (frames s)"
    and "g_replacer (gs that)"
  shows "take_over (gs(this := g)) this that s =
     Inr (gs(this := gs that, that := moved_from (gs that)),
          s\<lparr>replacer := SetEvictable (replacer s) (frame_id (frames s ! i)) False\<rparr>)"
  using assms by (simp add: take_over_eq)

text \<open>
  C9 as stated fails for a self-move: \<^verbatim>\<open>g = std::move(g)\<close> on the valid guard at address
  0 returns at the test \<^verbatim>\<open>this == &that\<close>. The guard is still valid, the state is
  unchanged (nothing was dropped), and a later \<open>Drop\<close> of that guard is not a no-op: it
  takes the pin count of the frame from 1 to 0.
\<close>

theorem C9_self_move_keeps_source_valid:
  "g_is_valid (two_guards 0)
   \<and> ReadPageGuard_move_assign two_guards 0 0 pool1_reading = Inr (two_guards, pool1_reading)
   \<and> map pin_count (frames pool1_reading) = [1]
   \<and> map_sum id (map pin_count \<circ> frames \<circ> snd)
        (ReadPageGuard_Drop (two_guards 0) pool1_reading) = Inr [0]
   \<and> WritePageGuard_move_assign two_guards 0 0 pool1_writing = Inr (two_guards, pool1_writing)
   \<and> map pin_count (frames pool1_writing) = [1]
   \<and> map_sum id (map pin_count \<circ> frames \<circ> snd)
        (WritePageGuard_Drop (two_guards 0) pool1_writing) = Inr [0]"
  by (simp add: replacer_defs pool_defs example_defs)

text \<open>
  C9, amended. Moving from a valid source (frame pointer \<open>i\<close>, replacer pointer set) into
  a different guard object:
  \<^item> move assignment first runs \<open>Drop\<close> on the destination; when that returns the state
    \<open>sd\<close>, the assignment returns a state with the frames of \<open>sd\<close> (every pin count and
    every latch as the destination's \<open>Drop\<close> left them) and the replacer of \<open>sd\<close> after
    \<open>SetEvictable(frame_id, false)\<close>; when the destination's \<open>Drop\<close> fails, the
    assignment fails in the same way;
  \<^item> move construction returns a state with the frames it started with;
  \<^item> in both, the destination holds the source's fields, the source is \<open>moved_from\<close>
    (invalid), and \<open>Drop\<close> on the source returns without a change.

  A self-move-assignment, of any guard \<open>a\<close> in any guard store \<open>hs\<close> and any state
  \<open>t\<close>, returns the store and the state as they are.
\<close>

theorem C9_move_between_distinct_guards:
  assumes "this \<noteq> that" and "g_is_valid (gs that)" and "g_frame (gs that) = Some i"
    and "i < length (frames s)" and "g_replacer (gs that)"
  shows "(ReadPageGuard_Drop (gs this) s = Inr (gd, sd) \<longrightarrow>
           (\<exists>s'. ReadPageGuard_move_assign gs this that s =
                   Inr (gs(this := gs that, that := moved_from (gs that)), s')
              \<and> frames s' = frames sd
              \<and> replacer s' = SetEvictable (replacer sd) (frame_id (frames sd ! i)) False
              \<and> ReadPageGuard_Drop (moved_from (gs that)) s' = Inr (moved_from (gs that), s')))
       \<and> (WritePageGuard_Drop (gs this) s = Inr (gd, sd) \<longrightarrow>
           (\<exists>s'. WritePageGuard_move_assign gs this that s =
                   Inr (gs(this := gs that, that := moved_from (gs that)), s')
              \<and> frames s' = frames sd
              \<and> replacer s' = SetEvictable (replacer sd) (frame_id (frames sd ! i)) False
              \<and> WritePageGuard_Drop (moved_from (gs that)) s' = Inr (moved_from (gs that), s')))
       \<and> (\<exists>s'. ReadPageGuard_move_ctor gs this that s =
                   Inr (gs(this := gs that, that := moved_from (gs that)), s')
              \<and> frames s' = frames s
              \<and> ReadPageGuard_Drop (moved_from (gs that)) s' = Inr (moved_from (gs that), s'))
       \<and> (\<exists>s'. WritePageGuard_move_ctor gs this that s =
                   Inr (gs(this := gs that, that := moved_from (gs that)), s')
              \<and> frames s' = frames s
              \<and> WritePageGuard_Drop (moved_from (gs that)) s' = Inr (moved_from (gs that), s'))
       \<and> (ReadPageGuard_Drop (gs this) s = Inl e \<longrightarrow>
             ReadPageGuard_move_assign gs this that s = Inl e)
       \<and> (WritePageGuard_Drop (gs this) s = Inl e \<longrightarrow>
             WritePageGuard_move_assign gs this that s = Inl e)
       \<and> ReadPageGuard_move_assign hs a a t = Inr (hs, t)
       \<and> WritePageGuard_move_assign hs a a t = Inr (hs, t)"
proof (intro conjI impI)
  assume d: "ReadPageGuard_Drop (gs this) s = Inr (gd, sd)"
  then have "i < length (frames sd)"
    using assms(4) by (simp add: ReadPageGuard_Drop_length)
  then show "\<exists>s'. ReadPageGuard_move_assign gs this that s =
                   Inr (gs(this := gs that, that := moved_from (gs that)), s')
              \<and> frames s' = frames sd
              \<and> replacer s' = SetEvictable (replacer sd) (frame_id (frames sd ! i)) False
              \<and> ReadPageGuard_Drop (moved_from (gs that)) s' = Inr (moved_from (gs that), s')"
    using assms d
    by (simp add: ReadPageGuard_move_assign_def bind_e_def take_over_valid Drop_moved_from)
next
  assume d: "WritePageGuard_Drop (gs this) s = Inr (gd, sd)"
  then have "i < length (frames sd)"
    using assms(4) by (simp add: WritePageGuard_Drop_length)
  then show "\<exists>s'. WritePageGuard_move_assign gs this that s =
                   Inr (gs(this := gs that, that := moved_from (gs that)), s')
              \<and> frames s' = frames sd
              \<and> replacer s' = SetEvictable (replacer sd) (frame_id (frames sd ! i)) False
              \<and> WritePageGuard_Drop (moved_from (gs that)) s' = Inr (moved_from (gs that), s')"
    using assms d
    by (simp add: WritePageGuard_move_assign_def bind_e_def take_over_valid Drop_moved_from)
next
  have t: "take_over (gs(this := default_guard)) this that s =
     Inr (gs(this := gs that, that := moved_from (gs that)),
          s\<lparr>replacer := SetEvictable (replacer s) (frame_id (frames s ! i)) False\<rparr>)"
    using assms(1,3,4,5) by (rule take_over_valid)
  have r: "ReadPageGuard_Drop default_guard s = Inr (default_guard, s)"
    by (simp add: ReadPageGuard_Drop_def default_guard_def)
  show "\<exists>s'. ReadPageGuard_move_ctor gs this that s =
                   Inr (gs(this := gs that, that := moved_from (gs that)), s')
              \<and> frames s' = frames s
              \<and> ReadPageGuard_Drop (moved_from (gs that)) s' = Inr (moved_from (gs that), s')"
    using assms(1) r t
    by (simp add: ReadPageGuard_move_ctor_def ReadPageGuard_move_assign_def bind_e_def
        Drop_moved_from)
  have w: "WritePageGuard_Drop default_guard s = Inr (default_guard, s)"
    by (simp add: WritePageGuard_Drop_def default_guard_def)
  show "\<exists>s'. WritePageGuard_move_ctor gs this that s =
                   Inr (gs(this := gs that, that := moved_from (gs that)), s')
              \<and> frames s' = frames s
              \<and> WritePageGuard_Drop (moved_from (gs that)) s' = Inr (moved_from (gs that), s')"
    using assms(1) w t
    by (simp add: WritePageGuard_move_ctor_def WritePageGuard_move_assign_def bind_e_def
        Drop_moved_from)
next
  assume "ReadPageGuard_Drop (gs this) s = Inl e"
  then show "ReadPageGuard_move_assign gs this that s = Inl e"
    using assms(1) by (simp add: ReadPageGuard_move_assign_def bind_e_def)
next
  assume "WritePageGuard_Drop (gs this) s = Inl e"
  then show "WritePageGuard_move_assign gs this that s = Inl e"
    using assms(1) by (simp add: WritePageGuard_move_assign_def bind_e_def)
next
  show "ReadPageGuard_move_assign hs a a t = Inr (hs, t)"
    by (simp add: ReadPageGuard_move_assign_def)
  show "WritePageGuard_move_assign hs a a t = Inr (hs, t)"
    by (simp add: WritePageGuard_move_assign_def)
qed


theorem C9_move_between_distinct_guards_witness:
  "(1 :: nat) \<noteq> 0
   \<and> g_is_valid (two_read_guards 0) \<and> g_frame (two_read_guards 0) = Some 0
   \<and> g_replacer (two_read_guards 0) \<and> g_is_valid (two_read_guards 1)
   \<and> 0 < length (frames pool1_two_readers)
   \<and> map pin_count (frames pool1_two_readers) = [2]
   \<and> map rwlatch (frames pool1_two_readers) = [\<lparr>writer = False, readers = 2\<rparr>]
   \<and> (\<exists>gd sd s'.
          ReadPageGuard_Drop (two_read_guards 1) pool1_two_readers = Inr (gd, sd)
        \<and> map pin_count (frames sd) = [1]
        \<and> map rwlatch (frames sd) = [\<lparr>writer = False, readers = 1\<rparr>]
        \<and> ReadPageGuard_move_assign two_read_guards 1 0 pool1_two_readers =
            Inr (two_read_guards(1 := two_read_guards 0, 0 := moved_from (two_read_guards 0)), s')
        \<and> frames s' = frames sd
        \<and> ReadPageGuard_Drop (moved_from (two_read_guards 0)) s' =
            Inr (moved_from (two_read_guards 0), s'))
   \<and> g_is_valid (two_write_guards 0) \<and> g_frame (two_write_guards 0) = Some 0
   \<and> g_replacer (two_write_guards 0) \<and> g_is_valid (two_write_guards 1)
   \<and> 0 < length (frames pool2_two_writers)
   \<and> map pin_count (frames pool2_two_writers) = [1, 1]
   \<and> map rwlatch (frames pool2_two_writers) =
        [\<lparr>writer = True, readers = 0\<rparr>, \<lparr>writer = True, readers = 0\<rparr>]
   \<and> (\<exists>gd sd s'.
          WritePageGuard_Drop (two_write_guards 1) pool2_two_writers = Inr (gd, sd)
        \<and> map pin_count (frames sd) = [1, 0]
        \<and> map rwlatch (frames sd) =
            [\<lparr>writer = True, readers = 0\<rparr>, \<lparr>writer = False, readers = 0\<rparr>]
        \<and> WritePageGuard_move_assign two_write_guards 1 0 pool2_two_writers =
            Inr (two_write_guards(1 := two_write_guards 0, 0 := moved_from (two_write_guards 0)), s')
        \<and> frames s' = frames sd
        \<and> WritePageGuard_Drop (moved_from (two_write_guards 0)) s' =
            Inr (moved_from (two_write_guards 0), s'))
   \<and> g_is_valid (two_guards 0) \<and> g_frame (two_guards 0) = Some 0 \<and> g_replacer (two_guards 0)
   \<and> 0 < length (frames pool1_reading)
   \<and> (\<exists>s'. ReadPageGuard_move_ctor two_guards 1 0 pool1_reading =
             Inr (two_guards(1 := two_guards 0, 0 := moved_from (two_guards 0)), s')
        \<and> frames s' = frames pool1_reading
        \<and> ReadPageGuard_Drop (moved_from (two_guards 0)) s' = Inr (moved_from (two_guards 0), s'))
   \<and> 0 < length (frames pool1_writing)
   \<and> (\<exists>s'. WritePageGuard_move_ctor two_guards 1 0 pool1_writing =
             Inr (two_guards(1 := two_guards 0, 0 := moved_from (two_guards 0)), s')
        \<and> frames s' = frames pool1_writing
        \<and> WritePageGuard_Drop (moved_from (two_guards 0)) s' = Inr (moved_from (two_guards 0), s'))
   \<and> ReadPageGuard_move_assign two_read_guards 0 0 pool1_two_readers =
        Inr (two_read_guards, pool1_two_readers)
   \<and> WritePageGuard_move_assign two_write_guards 0 0 pool2_two_writers =
        Inr (two_write_guards, pool2_two_writers)"
proof -
  have ne: "(1 :: nat) \<noteq> 0" by simp
  have gr: "g_is_valid (two_read_guards 0)" "g_frame (two_read_guards 0) = Some 0"
    "g_replacer (two_read_guards 0)" "g_is_valid (two_read_guards 1)"
    by (simp_all add: two_read_guards_def guard_page0_def)
  have gw: "g_is_valid (two_write_guards 0)" "g_frame (two_write_guards 0) = Some 0"
    "g_replacer (two_write_guards 0)" "g_is_valid (two_write_guards 1)"
    by (simp_all add: two_write_guards_def guard_page0_def guard_page1_def)
  have gc: "g_is_valid (two_guards 0)" "g_frame (two_guards 0) = Some 0"
    "g_replacer (two_guards 0)"
    by (simp_all add: two_guards_def guard_page0_def)
  have r: "0 < length (frames pool1_two_readers)"
    "map pin_count (frames pool1_two_readers) = [2]"
    "map rwlatch (frames pool1_two_readers) = [\<lparr>writer = False, readers = 2\<rparr>]"
    by (simp_all add: pool1_two_readers_def)
  have w: "0 < length (frames pool2_two_writers)"
    "map pin_count (frames pool2_two_writers) = [1, 1]"
    "map rwlatch (frames pool2_two_writers) =
        [\<lparr>writer = True, readers = 0\<rparr>, \<lparr>writer = True, readers = 0\<rparr>]"
    by (simp_all add: pool2_two_writers_def)
  have cr: "0 < length (frames pool1_reading)"
    by (simp add: pool1_reading_def)
  have cw: "0 < length (frames pool1_writing)"
    by (simp add: pool1_writing_def)
  have "\<exists>gd sd. ReadPageGuard_Drop (two_read_guards 1) pool1_two_readers = Inr (gd, sd)
        \<and> map pin_count (frames sd) = [1]
        \<and> map rwlatch (frames sd) = [\<lparr>writer = False, readers = 1\<rparr>]"
    by (simp add: two_read_guards_def guard_page0_def pool1_two_readers_def
        ReadPageGuard_Drop_def unpin_def bind_e_def rw_unlock_shared_def Let_def)
  then obtain gr' sr where dr: "ReadPageGuard_Drop (two_read_guards 1) pool1_two_readers = Inr (gr', sr)"
    "map pin_count (frames sr) = [1]"
    "map rwlatch (frames sr) = [\<lparr>writer = False, readers = 1\<rparr>]"
    by auto
  have "\<exists>gd sd. WritePageGuard_Drop (two_write_guards 1) pool2_two_writers = Inr (gd, sd)
        \<and> map pin_count (frames sd) = [1, 0]
        \<and> map rwlatch (frames sd) =
            [\<lparr>writer = True, readers = 0\<rparr>, \<lparr>writer = False, readers = 0\<rparr>]"
    by (simp add: two_write_guards_def guard_page1_def pool2_two_writers_def
        WritePageGuard_Drop_def unpin_def bind_e_def rw_unlock_def Let_def)
  then obtain gw' sw where dw: "WritePageGuard_Drop (two_write_guards 1) pool2_two_writers = Inr (gw', sw)"
    "map pin_count (frames sw) = [1, 0]"
    "map rwlatch (frames sw) =
        [\<lparr>writer = True, readers = 0\<rparr>, \<lparr>writer = False, readers = 0\<rparr>]"
    by auto
  note ar = C9_move_between_distinct_guards [where this = 1 and that = 0 and gs = two_read_guards
      and i = 0 and s = pool1_two_readers and gd = gr' and sd = sr, OF ne gr(1) gr(2) r(1) gr(3)]
  note aw = C9_move_between_distinct_guards [where this = 1 and that = 0 and gs = two_write_guards
      and i = 0 and s = pool2_two_writers and gd = gw' and sd = sw, OF ne gw(1) gw(2) w(1) gw(3)]
  note mr = C9_move_between_distinct_guards [where this = 1 and that = 0 and gs = two_guards
      and i = 0 and s = pool1_reading, OF ne gc(1) gc(2) cr gc(3)]
  note mw = C9_move_between_distinct_guards [where this = 1 and that = 0 and gs = two_guards
      and i = 0 and s = pool1_writing, OF ne gc(1) gc(2) cw gc(3)]
  from ar dr(1)
  obtain s1 where m1: "ReadPageGuard_move_assign two_read_guards 1 0 pool1_two_readers =
            Inr (two_read_guards(1 := two_read_guards 0, 0 := moved_from (two_read_guards 0)), s1)"
    "frames s1 = frames sr"
    "ReadPageGuard_Drop (moved_from (two_read_guards 0)) s1 =
            Inr (moved_from (two_read_guards 0), s1)"
    by blast
  have a1: "\<exists>gd sd s'.
          ReadPageGuard_Drop (two_read_guards 1) pool1_two_readers = Inr (gd, sd)
        \<and> map pin_count (frames sd) = [1]
        \<and> map rwlatch (frames sd) = [\<lparr>writer = False, readers = 1\<rparr>]
        \<and> ReadPageGuard_move_assign two_read_guards 1 0 pool1_two_readers =
            Inr (two_read_guards(1 := two_read_guards 0, 0 := moved_from (two_read_guards 0)), s')
        \<and> frames s' = frames sd
        \<and> ReadPageGuard_Drop (moved_from (two_read_guards 0)) s' =
            Inr (moved_from (two_read_guards 0), s')"
    by (rule exI [of _ gr'], rule exI [of _ sr], rule exI [of _ s1]) (intro conjI dr m1)
  from aw dw(1)
  obtain s2 where m2: "WritePageGuard_move_assign two_write_guards 1 0 pool2_two_writers =
            Inr (two_write_guards(1 := two_write_guards 0, 0 := moved_from (two_write_guards 0)), s2)"
    "frames s2 = frames sw"
    "WritePageGuard_Drop (moved_from (two_write_guards 0)) s2 =
            Inr (moved_from (two_write_guards 0), s2)"
    by blast
  have a2: "\<exists>gd sd s'.
          WritePageGuard_Drop (two_write_guards 1) pool2_two_writers = Inr (gd, sd)
        \<and> map pin_count (frames sd) = [1, 0]
        \<and> map rwlatch (frames sd) =
            [\<lparr>writer = True, readers = 0\<rparr>, \<lparr>writer = False, readers = 0\<rparr>]
        \<and> WritePageGuard_move_assign two_write_guards 1 0 pool2_two_writers =
            Inr (two_write_guards(1 := two_write_guards 0, 0 := moved_from (two_write_guards 0)), s')
        \<and> frames s' = frames sd
        \<and> WritePageGuard_Drop (moved_from (two_write_guards 0)) s' =
            Inr (moved_from (two_write_guards 0), s')"
    by (rule exI [of _ gw'], rule exI [of _ sw], rule exI [of _ s2]) (intro conjI dw m2)
  have c1: "\<exists>s'. ReadPageGuard_move_ctor two_guards 1 0 pool1_reading =
             Inr (two_guards(1 := two_guards 0, 0 := moved_from (two_guards 0)), s')
        \<and> frames s' = frames pool1_reading
        \<and> ReadPageGuard_Drop (moved_from (two_guards 0)) s' = Inr (moved_from (two_guards 0), s')"
    using mr by blast
  have c2: "\<exists>s'. WritePageGuard_move_ctor two_guards 1 0 pool1_writing =
             Inr (two_guards(1 := two_guards 0, 0 := moved_from (two_guards 0)), s')
        \<and> frames s' = frames pool1_writing
        \<and> WritePageGuard_Drop (moved_from (two_guards 0)) s' = Inr (moved_from (two_guards 0), s')"
    using mw by blast
  have f1: "ReadPageGuard_move_assign two_read_guards 0 0 pool1_two_readers =
        Inr (two_read_guards, pool1_two_readers)"
    using ar by blast
  have f2: "WritePageGuard_move_assign two_write_guards 0 0 pool2_two_writers =
        Inr (two_write_guards, pool2_two_writers)"
    using aw by blast
  show ?thesis
    by (intro conjI ne gr gw gc r w cr cw a1 a2 c1 c2 f1 f2)
qed

section \<open>The pool\<close>

text \<open>
  C7. \<open>FlushPage\<close> on a page that is not resident returns false and changes nothing. On a
  page resident in the frame \<open>i\<close> it returns true; when the frame is dirty the state it
  returns differs from the old one by the write request of the frame's bytes, which the
  scheduler has served, and when the frame is clean it is the old state. Whenever
  \<open>FlushPage\<close> returns, the result is false exactly when the page is not resident, and
  the frames (their \<open>is_dirty\<close> flags among the fields) are unchanged.
\<close>

theorem C7_flush_page:
  "(page_table s pid = None \<longrightarrow> FlushPage s pid = Inr (False, s))
   \<and> (page_table s pid = Some fid \<and> frame_index s fid = Inr i \<longrightarrow>
        FlushPage s pid =
          Inr (True, s\<lparr>disk_scheduler :=
                      if is_dirty (frames s ! i)
                      then schedule_write pid (data (frames s ! i)) (disk_scheduler s)
                      else disk_scheduler s\<rparr>))
   \<and> (FlushPage s pid = Inr (found, s') \<longrightarrow>
        (found = False \<longleftrightarrow> page_table s pid = None) \<and> frames s' = frames s)"
  by (auto simp: FlushPage_def bind_e_def split: option.splits sum.splits if_splits)

theorem C7_flush_page_witness:
  "page_table pool1 7 = None \<and> FlushPage pool1 7 = Inr (False, pool1)
   \<and> page_table pool1_writing 0 = Some 0 \<and> frame_index pool1_writing 0 = Inr 0
   \<and> is_dirty (frames pool1_writing ! 0)
   \<and> FlushPage pool1_writing 0 =
        Inr (True, pool1_writing\<lparr>disk_scheduler :=
               schedule_write 0 (data (frames pool1_writing ! 0)) (disk_scheduler pool1_writing)\<rparr>)
   \<and> (True = False \<longleftrightarrow> page_table pool1_writing 0 = None)
   \<and> frames (pool1_writing\<lparr>disk_scheduler :=
               schedule_write 0 (data (frames pool1_writing ! 0)) (disk_scheduler pool1_writing)\<rparr>)
       = frames pool1_writing
   \<and> calls (schedule_write 0 (data (frames pool1_writing ! 0)) (disk_scheduler pool1_writing))
       = [ReadRequest 0, WriteRequest 0 (replicate BUSTUB_PAGE_SIZE 0)]"
proof -
  have a: "page_table pool1 7 = None"
    by (simp add: pool1_def BufferPoolManager_init_def)
  have b: "page_table pool1_writing 0 = Some 0" "frame_index pool1_writing 0 = Inr 0"
    "is_dirty (frames pool1_writing ! 0)"
    by (simp_all add: pool1_writing_def frame_index_def)
  note absent = C7_flush_page [of pool1 7, THEN conjunct1, rule_format, OF a]
  note resident = C7_flush_page [of pool1_writing 0 0 0, THEN conjunct2, THEN conjunct1,
      rule_format, OF conjI [OF b(1) b(2)]]
  note returned = C7_flush_page [of pool1_writing 0 0 0 True
      "pool1_writing\<lparr>disk_scheduler :=
         schedule_write 0 (data (frames pool1_writing ! 0)) (disk_scheduler pool1_writing)\<rparr>",
      THEN conjunct2, THEN conjunct2, rule_format]
  have c: "calls (schedule_write 0 (data (frames pool1_writing ! 0)) (disk_scheduler pool1_writing))
       = [ReadRequest 0, WriteRequest 0 (replicate BUSTUB_PAGE_SIZE 0)]"
    by (simp add: pool1_writing_def schedule_write_def)
  show ?thesis
    using a b c absent resident returned by simp
qed

subsection \<open>The pool latch after a fetch\<close>

text \<open>
  \<^verbatim>\<open>CheckedReadPage\<close> and \<^verbatim>\<open>CheckedWritePage\<close> lock \<^verbatim>\<open>bpm_latch_\<close> on entry and unlock
  it only before \<^verbatim>\<open>return std::nullopt\<close>. Whenever they return a guard, the latch is
  still locked.
\<close>

lemma CheckedReadPage_keeps_latch:
  "CheckedReadPage s pid = Inr (Some g, s') \<Longrightarrow> bpm_latch s'"
  by (auto simp: CheckedReadPage_def fetch_frame_def choose_frame_def lock_latch_def bind_e_def
      pin_frame_def load_page_def ReadPageGuard_ctor_def FlushPage_def unlock_latch_def
      split: option.splits sum.splits if_splits prod.splits)

lemma CheckedWritePage_keeps_latch:
  "CheckedWritePage s pid = Inr (Some g, s') \<Longrightarrow> bpm_latch s'"
  by (auto simp: CheckedWritePage_def fetch_frame_def choose_frame_def lock_latch_def bind_e_def
      pin_frame_def load_page_def WritePageGuard_ctor_def FlushPage_def unlock_latch_def
      split: option.splits sum.splits if_splits prod.splits)

text \<open>Dropping a guard does not touch the latch.\<close>

lemma Drop_keeps_latch:
  "ReadPageGuard_Drop g s = Inr (g', s') \<Longrightarrow> bpm_latch s' = bpm_latch s"
  "WritePageGuard_Drop g s = Inr (g', s') \<Longrightarrow> bpm_latch s' = bpm_latch s"
  by (auto simp: ReadPageGuard_Drop_def WritePageGuard_Drop_def bind_e_def unpin_def Let_def
      split: option.splits sum.splits if_splits prod.splits)

text \<open>With the latch locked, no operation that takes it returns.\<close>

lemma locked_latch_blocks:
  assumes "bpm_latch s"
  shows "CheckedReadPage s pid = Inl Blocked" and "CheckedWritePage s pid = Inl Blocked"
    and "DeletePage s pid = Inl Blocked" and "FlushAllPages s = Inl Blocked"
    and "NewPage s = Inl Blocked" and "GetPinCount s pid = Inl Blocked"
  using assms
  by (simp_all add: CheckedReadPage_def CheckedWritePage_def fetch_frame_def lock_latch_def
      bind_e_def DeletePage_def FlushAllPages_def NewPage_def GetPinCount_def)

text \<open>
  With the latch free, the two fetches return \<^verbatim>\<open>std::nullopt\<close> exactly when the page
  is not resident, the free list is empty and \<open>Evict\<close> finds no frame.
\<close>

lemma CheckedReadPage_none_iff:
  assumes "\<not> bpm_latch s" and "CheckedReadPage s pid = Inr (g, s')"
  shows "g = None \<longleftrightarrow>
    page_table s pid = None \<and> free_frames s = [] \<and> fst (Evict (replacer s)) = None"
  using assms
  by (auto simp: CheckedReadPage_def fetch_frame_def choose_frame_def lock_latch_def bind_e_def
      split: option.splits sum.splits if_splits prod.splits)

lemma CheckedWritePage_none_iff:
  assumes "\<not> bpm_latch s" and "CheckedWritePage s pid = Inr (g, s')"
  shows "g = None \<longleftrightarrow>
    page_table s pid = None \<and> free_frames s = [] \<and> fst (Evict (replacer s)) = None"
  using assms
  by (auto simp: CheckedWritePage_def fetch_frame_def choose_frame_def lock_latch_def bind_e_def
      split: option.splits sum.splits if_splits prod.splits)

text \<open>
  C2 (violated by the code). In a pool of two frames \<^verbatim>\<open>CheckedWritePage(0)\<close> returns a
  guard; page 1 is then not resident and the free list still holds frame 1, so the claim
  promises a guard for page 1. The latch is still locked from the first call, and neither
  \<^verbatim>\<open>CheckedReadPage(1)\<close> nor \<^verbatim>\<open>CheckedWritePage(1)\<close> returns.
\<close>

theorem C2_second_fetch_blocks:
  "map_sum id (\<lambda>(g, s). (g \<noteq> None, page_table s 1, free_frames s, bpm_latch s))
     (CheckedWritePage pool2 0) = Inr (True, None, [1], True)
   \<and> bind_e (CheckedWritePage pool2 0) (\<lambda>(g, s). CheckedReadPage s 1) = Inl Blocked
   \<and> bind_e (CheckedWritePage pool2 0) (\<lambda>(g, s). CheckedWritePage s 1) = Inl Blocked"
  by (simp add: replacer_defs pool_defs example_defs upt_rec)

subsection \<open>DeletePage\<close>

text \<open>What \<open>DeletePage\<close> does when it gets the latch: the three cases of its body.\<close>

lemma DeletePage_not_resident:
  assumes "\<not> bpm_latch s" and "page_table s pid = None"
  shows "DeletePage s pid =
    Inr (True, s\<lparr>disk_scheduler := DeallocatePage pid (disk_scheduler s)\<rparr>)"
  using assms
  by (simp add: DeletePage_def lock_latch_def unlock_latch_def bind_e_def frame_index_def)

lemma DeletePage_pinned:
  assumes "\<not> bpm_latch s" and "page_table s pid = Some fid" and "frame_index s fid = Inr i"
    and "0 < pin_count (frames s ! i)"
  shows "DeletePage s pid = Inr (False, s)"
  using assms
  by (simp add: DeletePage_def lock_latch_def unlock_latch_def bind_e_def frame_index_def)

lemma DeletePage_unpinned:
  assumes "\<not> bpm_latch s" and "page_table s pid = Some fid" and "frame_index s fid = Inr i"
    and "pin_count (frames s ! i) = 0" and "Remove (replacer s) fid = Inr r"
  shows "DeletePage s pid =
    Inr (True, s\<lparr>frames := (frames s)[i := Reset (frames s ! i)],
                 page_table := (page_table s)(pid := None),
                 free_frames := free_frames s @ [fid],
                 replacer := r,
                 disk_scheduler := DeallocatePage pid (disk_scheduler s)\<rparr>)"
  using assms
  by (simp add: DeletePage_def lock_latch_def unlock_latch_def bind_e_def frame_index_def)

text \<open>
  C4 (violated by the code). A page becomes resident through a fetch, and the fetch
  leaves the latch locked. In a pool of one frame, after \<^verbatim>\<open>CheckedReadPage(0)\<close> page 0
  is resident with pin count 1: \<open>DeletePage(0)\<close> does not return false, it does not
  return. After the guard is dropped (pin count 0) \<open>DeletePage(0)\<close> does not return
  either, and neither does \<open>DeletePage(1)\<close> of the page that is not resident.
\<close>

theorem C4_delete_after_fetch_blocks:
  "CheckedReadPage pool1 0 = Inr (Some guard_page0, pool1_reading)
   \<and> page_table pool1_reading 0 = Some 0 \<and> map pin_count (frames pool1_reading) = [1]
   \<and> DeletePage pool1_reading 0 = Inl Blocked
   \<and> map_sum id (map pin_count \<circ> frames \<circ> snd)
        (ReadPageGuard_Drop guard_page0 pool1_reading) = Inr [0]
   \<and> bind_e (ReadPageGuard_Drop guard_page0 pool1_reading) (\<lambda>(g, s). DeletePage s 0)
       = Inl Blocked
   \<and> page_table pool1_reading 1 = None \<and> DeletePage pool1_reading 1 = Inl Blocked"
  by (simp add: replacer_defs pool_defs example_defs upt_rec)

subsection \<open>A dirty victim\<close>

text \<open>The frames through the stages of a fetch.\<close>

lemma frame_index_bound: "frame_index s fid = Inr i \<Longrightarrow> i < length (frames s)"
  by (auto simp: frame_index_def split: if_splits)

lemma frame_index_same_length:
  "length (frames s') = length (frames s) \<Longrightarrow> frame_index s' fid = frame_index s fid"
  by (simp add: frame_index_def)

lemma FlushPage_frames: "FlushPage s pid = Inr (b, s') \<Longrightarrow> frames s' = frames s"
  by (auto simp: FlushPage_def bind_e_def split: option.splits sum.splits if_splits)

lemma choose_frame_evicts:
  assumes "free_frames s = []" and "Evict (replacer s) = (Some fid, r)"
    and "choose_frame s pid = Inr (chosen, s')"
  shows "chosen = Some fid" and "frames s' = frames s"
proof -
  from assms obtain i b s1 where "frame_index s fid = Inr i"
    and f: "FlushPage (s\<lparr>replacer := r\<rparr>) (page_id (frames s ! i)) = Inr (b, s1)"
    and r: "chosen = Some fid"
      "s' = s1\<lparr>page_table := ((page_table s1)(page_id (frames s ! i) := None))(pid \<mapsto> fid)\<rparr>"
    by (auto simp: choose_frame_def bind_e_def split: sum.splits)
  from r(1) show "chosen = Some fid" .
  from FlushPage_frames [OF f] r(2) show "frames s' = frames s" by simp
qed

lemma load_page_frame:
  assumes "load_page s fid pid = Inr s'" and "frame_index s fid = Inr i"
  shows "length (frames s') = length (frames s)"
    and "is_dirty (frames s' ! i) = is_dirty (frames s ! i)"
  using assms frame_index_bound [OF assms(2)]
  by (auto simp: load_page_def bind_e_def schedule_read_def)

lemma pin_frame_frame:
  assumes "pin_frame s fid pid = Inr (j, s')" and "frame_index s fid = Inr i"
  shows "j = i" and "length (frames s') = length (frames s)"
    and "is_dirty (frames s' ! i) = is_dirty (frames s ! i)"
    and "page_id (frames s' ! i) = pid"
  using assms frame_index_bound [OF assms(2)]
  by (auto simp: pin_frame_def bind_e_def split: sum.splits)

lemma ReadPageGuard_ctor_frame:
  assumes "ReadPageGuard_ctor pid i s = Inr (g, s')" and "i < length (frames s)"
  shows "g_is_valid g" and "g_frame g = Some i" and "length (frames s') = length (frames s)"
    and "is_dirty (frames s' ! i) = is_dirty (frames s ! i)"
    and "page_id (frames s' ! i) = page_id (frames s ! i)"
  using assms by (auto simp: ReadPageGuard_ctor_def bind_e_def split: sum.splits)

lemma fetch_frame_not_resident:
  assumes "page_table s pid = None" and "fetch_frame s pid = Inr (Some j, s')"
  obtains s1 fid s2 s3 where "choose_frame (s\<lparr>bpm_latch := True\<rparr>) pid = Inr (Some fid, s1)"
    and "load_page s1 fid pid = Inr s2" and "pin_frame s2 fid pid = Inr (j, s')"
  using assms
  by (auto simp: fetch_frame_def lock_latch_def bind_e_def
      split: sum.splits option.splits if_splits)

text \<open>
  Whenever a fetch evicts a dirty victim and returns a read guard, the guard reports
  dirty and the frame carries the new page id; \<open>FlushAllPages\<close> called on the state the
  fetch returned does not write the page back: it waits for the latch.
\<close>

lemma evicting_fetch_keeps_dirty:
  assumes absent: "page_table s pid = None" and full: "free_frames s = []"
    and victim: "Evict (replacer s) = (Some fid, r)" and index: "frame_index s fid = Inr i"
    and dirty: "is_dirty (frames s ! i)"
    and fetched: "CheckedReadPage s pid = Inr (Some g, s')"
  shows "IsDirty g s' = Inr True" and "page_id (frames s' ! i) = pid"
    and "FlushAllPages s' = Inl Blocked"
proof -
  have "bpm_latch s'"
    using fetched by (rule CheckedReadPage_keeps_latch)
  then show "FlushAllPages s' = Inl Blocked"
    by (rule locked_latch_blocks)
  from fetched obtain j s4 where fetch: "fetch_frame s pid = Inr (Some j, s4)"
    and ctor: "ReadPageGuard_ctor pid j s4 = Inr (g, s')"
    by (auto simp: CheckedReadPage_def bind_e_def split: sum.splits option.splits)
  from fetch_frame_not_resident [OF absent fetch]
  obtain s1 fid' s2 where choose: "choose_frame (s\<lparr>bpm_latch := True\<rparr>) pid = Inr (Some fid', s1)"
    and load: "load_page s1 fid' pid = Inr s2" and pin: "pin_frame s2 fid' pid = Inr (j, s4)"
    by blast
  have "Some fid' = Some fid" and f1: "frames s1 = frames s"
    using choose_frame_evicts [OF _ _ choose, of fid r] full victim by simp_all
  then have fid': "fid' = fid" by simp
  have i1: "frame_index s1 fid = Inr i"
    using index f1 by (simp add: frame_index_def)
  note l = load_page_frame [OF load [unfolded fid'] i1]
  have i2: "frame_index s2 fid = Inr i"
    using i1 l(1) by (simp add: frame_index_def)
  note p = pin_frame_frame [OF pin [unfolded fid'] i2]
  have i4: "i < length (frames s4)"
    using frame_index_bound [OF i2] p(2) by simp
  note c = ReadPageGuard_ctor_frame [OF ctor [unfolded p(1)] i4]
  have "is_dirty (frames s' ! i)"
    using dirty f1 l(2) p(3) c(4) by simp
  moreover have "i < length (frames s')"
    using i4 c(3) by simp
  ultimately show "IsDirty g s' = Inr True"
    using c(1) c(2) by (simp add: IsDirty_def)
  show "page_id (frames s' ! i) = pid"
    using p(4) c(5) by simp
qed

text \<open>
  The body of the fetch on a dirty victim, run with the latch released by hand after the
  first fetch (\<open>unlock_latch\<close>, which the code does not do): page 0 is written into the
  one frame and the guard dropped; the fetch of page 1 evicts the frame and flushes page
  0; the read guard for page 1 reports dirty; \<open>FlushAllPages\<close>, with the latch released
  by hand again, writes page 1. The calls the scheduler has served are, in order, the read
  of page 0, the write of page 0, the read of page 1 and the write of page 1.
\<close>

lemma dirty_flag_survives_eviction_with_latch_released:
  "bind_e (WritePageGuard_Drop guard_page0 pool1_writing) (\<lambda>(g, s).
     bind_e (CheckedReadPage (unlock_latch s) 1) (\<lambda>(fetched, s1).
       case fetched of
         None \<Rightarrow> Inl Undefined
       | Some g1 \<Rightarrow>
           bind_e (IsDirty g1 s1) (\<lambda>dirty.
           bind_e (FlushAllPages (unlock_latch s1)) (\<lambda>s2.
             Inr (dirty, page_table s1 1, calls (disk_scheduler s2))))))
   = Inr (True, Some 0,
          [ReadRequest 0, WriteRequest 0 (replicate BUSTUB_PAGE_SIZE 0), ReadRequest 1,
           WriteRequest 1 (replicate BUSTUB_PAGE_SIZE 0)])"
  by (simp add: replacer_defs pool_defs example_defs)

text \<open>
  C10 (violated by the code). In a pool of one frame \<^verbatim>\<open>CheckedWritePage(0)\<close> makes the
  frame dirty; after the guard is dropped the frame is dirty, unpinned and the only
  frame, so a fetch of page 1 would evict it. \<^verbatim>\<open>CheckedReadPage(1)\<close> does not return:
  the latch is still locked from the first fetch. No read guard is obtained, and
  \<open>FlushAllPages\<close> does not return either, so nothing is written back.
\<close>

theorem C10_evicting_fetch_blocks:
  "CheckedWritePage pool1 0 = Inr (Some guard_page0, pool1_writing)
   \<and> map_sum id (\<lambda>(g, s). (map is_dirty (frames s), map pin_count (frames s), free_frames s,
                              bpm_latch s))
        (WritePageGuard_Drop guard_page0 pool1_writing) = Inr ([True], [0], [], True)
   \<and> bind_e (WritePageGuard_Drop guard_page0 pool1_writing) (\<lambda>(g, s). CheckedReadPage s 1)
       = Inl Blocked
   \<and> bind_e (WritePageGuard_Drop guard_page0 pool1_writing) (\<lambda>(g, s). FlushAllPages s)
       = Inl Blocked"
  by (simp add: replacer_defs pool_defs example_defs upt_rec)

end
